theory Spec2Isabelle
  imports Main
begin

section \<open>Go string primitives used by the Azure AD provider\<close>

text \<open>
  A Go \<open>string\<close> is a sequence of bytes, which is what \<^typ>\<open>string\<close> is here.
  The functions below are the ones of package \<open>strings\<close> that
  \<open>pkg/provider/aad/aad.go\<close> calls, and the slice expressions \<open>v[a:]\<close> and
  \<open>v[a:b]\<close>, whose out-of-range case is a run-time panic.
\<close>

fun HasPrefix :: "string \<Rightarrow> string \<Rightarrow> bool" where
  "HasPrefix s [] = True"
| "HasPrefix [] (p # ps) = False"
| "HasPrefix (c # cs) (p # ps) = (c = p \<and> HasPrefix cs ps)"

text \<open>The position of the first occurrence of \<open>sub\<close> in \<open>s\<close>, if there is one.\<close>

fun first_occurrence :: "string \<Rightarrow> string \<Rightarrow> nat option" where
  "first_occurrence [] sub = (if sub = [] then Some 0 else None)"
| "first_occurrence (c # cs) sub =
     (if HasPrefix (c # cs) sub then Some 0
      else map_option Suc (first_occurrence cs sub))"

text \<open>\<open>strings.Index\<close>: the byte index of the first occurrence, or \<open>-1\<close>.\<close>

definition Index :: "string \<Rightarrow> string \<Rightarrow> int" where
  "Index s sub = (case first_occurrence s sub of None \<Rightarrow> - 1 | Some i \<Rightarrow> int i)"

text \<open>\<open>strings.Contains(s, sub)\<close> is \<open>strings.Index(s, sub) >= 0\<close>.\<close>

definition Contains :: "string \<Rightarrow> string \<Rightarrow> bool" where
  "Contains s sub = (0 \<le> Index s sub)"

text \<open>\<open>strings.Split(s, sep)\<close> for a separator of one byte.\<close>

fun Split :: "string \<Rightarrow> char \<Rightarrow> string list" where
  "Split [] sep = [[]]"
| "Split (c # cs) sep =
     (if c = sep then [] # Split cs sep
      else (case Split cs sep of [] \<Rightarrow> [[c]] | seg # segs \<Rightarrow> (c # seg) # segs))"

section \<open>Errors and panics\<close>

text \<open>
  The error values the provider builds. \<open>Wrap e msg\<close> is \<open>errors.Wrap(e, msg)\<close>
  for a non-nil \<open>e\<close>; \<open>Errorf msg\<close> is \<open>fmt.Errorf\<close> or \<open>errors.New\<close> with a fixed
  message; \<open>LoginError\<close>, \<open>MfaBeginError\<close> and \<open>MfaError\<close> are the three
  \<open>fmt.Errorf\<close> calls with arguments. \<open>TransportError\<close> is an error of the HTTP
  client, \<open>JsonError\<close> one of \<open>encoding/json\<close>, \<open>HtmlError\<close> one of goquery and
  \<open>RequestError\<close> one of \<open>http.NewRequest\<close>.
\<close>

datatype error =
    TransportError string
  | JsonError
  | HtmlError
  | RequestError
  | Errorf string
  | LoginError string
  | MfaBeginError string
  | MfaError int string
  | Wrap error string

text \<open>The run-time panics the code can raise: they unwind the call, no error is returned.\<close>

datatype panic = SliceBoundsOutOfRange | IndexOutOfRange | NilPointerDereference

datatype 'a result = Ok 'a | Err error | Panic panic

text \<open>The slice expressions \<open>v[a:]\<close> and \<open>v[a:b]\<close> on a string.\<close>

definition slice_from :: "string \<Rightarrow> int \<Rightarrow> string result" where
  "slice_from v a =
     (if 0 \<le> a \<and> a \<le> int (length v) then Ok (drop (nat a) v)
      else Panic SliceBoundsOutOfRange)"

definition slice :: "string \<Rightarrow> int \<Rightarrow> int \<Rightarrow> string result" where
  "slice v a b =
     (if 0 \<le> a \<and> a \<le> b \<and> b \<le> int (length v)
      then Ok (take (nat (b - a)) (drop (nat a) v))
      else Panic SliceBoundsOutOfRange)"

section \<open>Page classification\<close>

text \<open>
  The \<open>switch\<close> at the head of the loop of \<open>Authenticate\<close> (lines 183 to 216)
  chooses the handler from the body alone. Its cases, in the order of the source.
\<close>

datatype page_kind = SIGNIN | PROOFUP_REDIRECT | KMSI | TFA | SAMLREQ | HIDDEN_FORM | UNKNOWN

definition dquote :: char where
  "dquote = CHR 0x22"

definition squote :: char where
  "squote = CHR 0x27"

definition working_prefix :: string where
  "working_prefix = ''<html><head><title>Working...</title>''"

definition hiddenform_marker :: string where
  "hiddenform_marker = ''name='' @ [dquote] @ ''hiddenform'' @ [dquote]"

definition isHiddenForm :: "string \<Rightarrow> bool" where
  "isHiddenForm resBodyStr =
     (HasPrefix resBodyStr working_prefix \<and> Contains resBodyStr hiddenform_marker)"

definition classify :: "string \<Rightarrow> page_kind" where
  "classify resBodyStr =
     (if Contains resBodyStr ''ConvergedSignIn'' then SIGNIN
      else if Contains resBodyStr ''ConvergedProofUpRedirect'' then PROOFUP_REDIRECT
      else if Contains resBodyStr ''KmsiInterrupt'' then KMSI
      else if Contains resBodyStr ''ConvergedTFA'' then TFA
      else if Contains resBodyStr ''SAMLRequest'' then SAMLREQ
      else if isHiddenForm resBodyStr then HIDDEN_FORM
      else UNKNOWN)"

section \<open>Data model\<close>

text \<open>
  The structs of \<open>aad.go\<close> with the fields the handlers read or write. The JSON
  field \<open>oPerAuthPollingInterval\<close> only feeds \<open>time.Sleep\<close> and the response's
  \<open>Timestamp\<close> is never read; neither is modelled. Field names that two structs
  share carry a prefix here.
\<close>

record userProof =
  AuthMethodID :: string
  Data :: string
  Display :: string
  IsDefault :: bool

record ConvergedResponse =
  URLGetCredentialType :: string
  ArrUserProofs :: "userProof list"
  URLSkipMfaRegistration :: string
  URLBeginAuth :: string
  URLEndAuth :: string
  URLPost :: string
  SErrorCode :: string
  SErrTxt :: string
  SPOSTUsername :: string
  SFT :: string
  SFTName :: string
  SCtx :: string
  Hpgact :: int
  Hpgid :: int
  Pgid :: string
  APICanary :: string
  Canary :: string
  CorrelationID :: string
  SessionID :: string

text \<open>The fields of \<open>GetCredentialTypeRequest\<close> the code sets; the others keep their zero value.\<close>

record GetCredentialTypeRequest =
  cred_Username :: string
  IsOtherIdpSupported :: bool
  CheckPhones :: bool
  IsRemoteNGCSupported :: bool
  IsCookieBannerShown :: bool
  IsFidoSupported :: bool
  OriginalRequest :: string
  cred_FlowToken :: string

text \<open>Of \<open>GetCredentialTypeResponse\<close> the code reads \<open>Credentials.FederationRedirectUrl\<close> only.\<close>

record GetCredentialTypeResponse =
  FederationRedirectURL :: string

record mfaRequest =
  mfa_AuthMethodID :: string
  mfa_Method :: string
  mfa_Ctx :: string
  mfa_FlowToken :: string
  mfa_SessionID :: string
  AdditionalAuthData :: string

record mfaResponse =
  Success :: bool
  ResultValue :: string
  Message :: string
  resp_AuthMethodID :: string
  ErrCode :: int
  Retry :: bool
  resp_FlowToken :: string
  resp_Ctx :: string
  resp_SessionID :: string
  resp_CorrelationID :: string
  Entropy :: int

text \<open>\<open>creds.LoginDetails\<close> and \<open>cfg.IDPAccount\<close>, the inputs of a run.\<close>

record LoginDetails =
  Username :: string
  Password :: string
  MFAToken :: string

record IDPAccount =
  URL :: string
  AppID :: string
  MFA :: string

section \<open>The HTTP session\<close>

text \<open>
  A request as \<open>http.NewRequest\<close> and \<open>Header.Add\<close> build it. The body is kept as
  the value that \<open>json.Marshal\<close> or \<open>url.Values.Encode\<close> serialises.
\<close>

datatype payload =
    NoBody
  | FormBody "(string \<times> string) list"
  | CredentialTypeJson GetCredentialTypeRequest
  | MfaJson mfaRequest

record request =
  ReqMethod :: string
  ReqURL :: string
  ReqHeader :: "(string \<times> string) list"
  ReqBody :: payload

text \<open>
  Of an \<open>http.Response\<close> the code reads the body and \<open>res.Request.URL\<close> (its
  scheme, its host and its text).
\<close>

record response =
  Body :: string
  RequestScheme :: string
  RequestHost :: string
  RequestURLString :: string

text \<open>
  The session of \<open>provider.HTTPClient\<close>: the redirect-following switch, the exchanges
  made so far (each request with what came back, a transport error or a response) and
  the notices printed for the user.
\<close>

datatype notice = PhoneApprovalRequired | PhoneApprovalEntropy int

record session =
  follow_redirect :: bool
  exchanges :: "(request \<times> (string + response)) list"
  notices :: "notice list"

text \<open>An HTML document as goquery shows it to the code: its \<open>input\<close> elements with
  their \<open>name\<close> and \<open>value\<close> attributes, and its \<open>form\<close> elements with their
  \<open>action\<close> attribute, in document order.\<close>

record html_doc =
  inputs :: "(string option \<times> string option) list"
  forms :: "string option list"

text \<open>What decoding a JSON text into a nil \<open>*ConvergedResponse\<close> leaves: an error, the
  pointer still nil (the JSON value \<open>null\<close>), or a struct.\<close>

datatype 'a decoded = DecodeFailed | DecodedNull | Decoded 'a

text \<open>
  What the provider calls and this file does not define: the JSON decoder (which stops
  at the end of the first value), goquery's parser, the URL parser inside
  \<open>http.NewRequest\<close>, the prompter, and the transport with the server behind it, whose
  answer may depend on everything the session has done.
\<close>

record env =
  decodeConverged :: "string \<Rightarrow> ConvergedResponse decoded"
  decodeCredentialType :: "string \<Rightarrow> GetCredentialTypeResponse option"
  decodeMfa :: "string \<Rightarrow> mfaResponse option"
  parseHtml :: "string \<Rightarrow> html_doc option"
  urlParses :: "string \<Rightarrow> bool"
  StringRequired :: "string \<Rightarrow> string"
  roundTrip :: "session \<Rightarrow> request \<Rightarrow> string + response"

text \<open>\<open>client.Do(req)\<close>: one HTTP turn.\<close>

definition Do :: "env \<Rightarrow> request \<Rightarrow> session \<Rightarrow> (string + response) \<times> session" where
  "Do e req s =
     (let r = roundTrip e s req in (r, s\<lparr>exchanges := exchanges s @ [(req, r)]\<rparr>))"

text \<open>Modelled from the spec: \<open>Get(url) -> Response\<close> of the session facade
  (\<open>provider.HTTPClient\<close> is not among the sources): a turn with a GET request.\<close>

definition Get :: "env \<Rightarrow> string \<Rightarrow> session \<Rightarrow> (string + response) \<times> session" where
  "Get e url s = Do e \<lparr>ReqMethod = ''GET'', ReqURL = url, ReqHeader = [], ReqBody = NoBody\<rparr> s"

text \<open>Modelled from the spec: \<open>DisableFollowRedirect()\<close> and \<open>EnableFollowRedirect()\<close>
  of the session facade, which "affect subsequent calls until toggled back" (their code,
  in \<open>provider.HTTPClient\<close>, is not among the sources).\<close>

definition DisableFollowRedirect :: "session \<Rightarrow> session" where
  "DisableFollowRedirect s = s\<lparr>follow_redirect := False\<rparr>"

definition EnableFollowRedirect :: "session \<Rightarrow> session" where
  "EnableFollowRedirect s = s\<lparr>follow_redirect := True\<rparr>"

text \<open>\<open>url.Values.Set(key, value)\<close>: the key's values are replaced by the one value.\<close>

fun Values_Set :: "(string \<times> string) list \<Rightarrow> string \<Rightarrow> string \<Rightarrow> (string \<times> string) list" where
  "Values_Set [] k v = [(k, v)]"
| "Values_Set ((k', v') # kvs) k v =
     (if k' = k then (k, v) # kvs else (k', v') # Values_Set kvs k v)"




section \<open>Helpers of the provider\<close>

text \<open>
  \<open>unmarshalEmbeddedJson\<close> (lines 676 to 683). The start index is the marker's
  index plus 8, whether or not the marker was found; the decoder reads from there.
\<close>

definition unmarshalEmbeddedJson :: "env \<Rightarrow> string \<Rightarrow> ConvergedResponse option result" where
  "unmarshalEmbeddedJson e resBodyStr =
     (let startIndex = Index resBodyStr ''$Config='' + 8 in
      case slice_from resBodyStr startIndex of
        Panic p \<Rightarrow> Panic p
      | Err x \<Rightarrow> Err x
      | Ok rest \<Rightarrow>
          (case decodeConverged e rest of
             DecodeFailed \<Rightarrow> Err JsonError
           | DecodedNull \<Rightarrow> Ok None
           | Decoded c \<Rightarrow> Ok (Some c)))"

text \<open>\<open>fullUrl\<close> (lines 690 to 696).\<close>

definition fullUrl :: "response \<Rightarrow> string \<Rightarrow> string" where
  "fullUrl res urlFragment =
     (if HasPrefix urlFragment ''/''
      then RequestScheme res @ ''://'' @ RequestHost res @ urlFragment
      else urlFragment)"

text \<open>
  \<open>reSubmitFormData\<close> (lines 732 to 764): every \<open>input\<close> with a name and a value
  sets a form value, and the last \<open>form\<close> with an \<open>action\<close> gives the submit URL.
\<close>

fun collectInputs ::
  "(string option \<times> string option) list \<Rightarrow> (string \<times> string) list \<Rightarrow> (string \<times> string) list" where
  "collectInputs [] formValues = formValues"
| "collectInputs ((None, _) # rest) formValues = collectInputs rest formValues"
| "collectInputs ((Some name, None) # rest) formValues = collectInputs rest formValues"
| "collectInputs ((Some name, Some v) # rest) formValues =
     collectInputs rest (Values_Set formValues name v)"

fun lastAction :: "string option list \<Rightarrow> string \<Rightarrow> string" where
  "lastAction [] formSubmitUrl = formSubmitUrl"
| "lastAction (None # rest) formSubmitUrl = lastAction rest formSubmitUrl"
| "lastAction (Some action # rest) formSubmitUrl = lastAction rest action"

definition reSubmitFormData :: "env \<Rightarrow> string \<Rightarrow> ((string \<times> string) list \<times> string) result" where
  "reSubmitFormData e resBodyStr =
     (case parseHtml e resBodyStr of
        None \<Rightarrow> Err (Wrap HtmlError ''failed to build document from response'')
      | Some doc \<Rightarrow> Ok (collectInputs (inputs doc) [], lastAction (forms doc) []))"

text \<open>
  \<open>getSamlAssertion\<close> (lines 766 to 786); \<open>Authenticate\<close> drops its error, so the
  model returns the string alone. An \<open>input\<close> named \<open>SAMLResponse\<close> without a value
  sets the empty string.
\<close>

fun scanAssertion :: "(string option \<times> string option) list \<Rightarrow> string \<Rightarrow> string" where
  "scanAssertion [] samlAssertion = samlAssertion"
| "scanAssertion ((None, _) # rest) samlAssertion = scanAssertion rest samlAssertion"
| "scanAssertion ((Some attrName, v) # rest) samlAssertion =
     (if attrName \<noteq> ''SAMLResponse'' then scanAssertion rest samlAssertion
      else scanAssertion rest (case v of None \<Rightarrow> [] | Some a \<Rightarrow> a))"

definition getSamlAssertion :: "env \<Rightarrow> string \<Rightarrow> string" where
  "getSamlAssertion e resBodyStr =
     (case parseHtml e resBodyStr of
        None \<Rightarrow> []
      | Some doc \<Rightarrow> scanAssertion (inputs doc) [])"

section \<open>The handlers\<close>

text \<open>
  A handler takes the session and returns it with its result: the next response, an
  error, or a panic. On an error the Go code also returns a response, which
  \<open>Authenticate\<close> never reads.
\<close>



text \<open>\<open>processAuthentication\<close> (lines 346 to 379).\<close>

definition processAuthentication ::
  "env \<Rightarrow> string \<Rightarrow> string \<Rightarrow> LoginDetails \<Rightarrow> ConvergedResponse \<Rightarrow> session
     \<Rightarrow> response result \<times> session" where
  "processAuthentication e loginUrl refererUrl loginDetails convergedResponse s =
     (if SErrorCode convergedResponse \<noteq> [] \<and> SErrorCode convergedResponse \<noteq> ''50058''
      then (Err (LoginError (SErrorCode convergedResponse)), s)
      else
        (let formValues1 = Values_Set [] ''canary'' (Canary convergedResponse);
             formValues2 = Values_Set formValues1 ''hpgrequestid'' (SessionID convergedResponse);
             formValues3 = Values_Set formValues2 (SFTName convergedResponse) (SFT convergedResponse);
             formValues4 = Values_Set formValues3 ''ctx'' (SCtx convergedResponse);
             formValues5 = Values_Set formValues4 ''login'' (Username loginDetails);
             formValues6 = Values_Set formValues5 ''loginfmt'' (Username loginDetails);
             formValues = Values_Set formValues6 ''passwd'' (Password loginDetails)
         in if \<not> urlParses e loginUrl
            then (Err (Wrap RequestError ''error building login request''), s)
            else
              (case Do e \<lparr>ReqMethod = ''POST'', ReqURL = loginUrl,
                      ReqHeader = [(''Content-Type'', ''application/x-www-form-urlencoded''),
                        (''Referer'', refererUrl)],
                      ReqBody = FormBody formValues\<rparr> s of
                 (Inl msg, s') \<Rightarrow>
                   (Err (Wrap (TransportError msg) ''error retrieving login results''), s')
               | (Inr res, s') \<Rightarrow> (Ok res, s'))))"

text \<open>The form values of the password POST (lines 356 to 363), named for the statements below.\<close>

definition loginForm :: "LoginDetails \<Rightarrow> ConvergedResponse \<Rightarrow> (string \<times> string) list" where
  "loginForm loginDetails c =
     Values_Set (Values_Set (Values_Set (Values_Set (Values_Set (Values_Set (Values_Set []
       ''canary'' (Canary c)) ''hpgrequestid'' (SessionID c)) (SFTName c) (SFT c))
       ''ctx'' (SCtx c)) ''login'' (Username loginDetails))
       ''loginfmt'' (Username loginDetails)) ''passwd'' (Password loginDetails)"


text \<open>
  \<open>processKmsiInterrupt\<close> (lines 381 to 409). \<open>EnableFollowRedirect\<close> stands
  after the error return of \<open>client.Do\<close>.
\<close>

definition processKmsiInterrupt ::
  "env \<Rightarrow> response \<Rightarrow> string \<Rightarrow> session \<Rightarrow> response result \<times> session" where
  "processKmsiInterrupt e res srcBodyStr s =
     (case unmarshalEmbeddedJson e srcBodyStr of
        Panic p \<Rightarrow> (Panic p, s)
      | Err x \<Rightarrow> (Err (Wrap x ''KMSI request unmarshal error''), s)
      | Ok None \<Rightarrow> (Panic NilPointerDereference, s)
      | Ok (Some convergedResponse) \<Rightarrow>
          (let formValues1 = Values_Set [] (SFTName convergedResponse) (SFT convergedResponse);
               formValues2 = Values_Set formValues1 ''ctx'' (SCtx convergedResponse);
               formValues = Values_Set formValues2 ''LoginOptions'' ''1''
           in if \<not> urlParses e (fullUrl res (URLPost convergedResponse))
              then (Err (Wrap RequestError ''error building KMSI request''), s)
              else
                (case Do e \<lparr>ReqMethod = ''POST'', ReqURL = fullUrl res (URLPost convergedResponse),
                        ReqHeader = [(''Content-Type'', ''application/x-www-form-urlencoded'')],
                        ReqBody = FormBody formValues\<rparr> (DisableFollowRedirect s) of
                   (Inl msg, s') \<Rightarrow>
                     (Err (Wrap (TransportError msg) ''error retrieving KMSI results''), s')
                 | (Inr res', s') \<Rightarrow> (Ok res', EnableFollowRedirect s'))))"

text \<open>
  \<open>processMfaBeginAuth\<close> (lines 508 to 564). The two \<open>range\<close> loops of the method
  selection stop at the first match; without a match \<open>mfa\<close> keeps \<open>mfas[0]\<close>.
\<close>

fun firstDefault :: "userProof list \<Rightarrow> userProof \<Rightarrow> userProof" where
  "firstDefault [] mfa = mfa"
| "firstDefault (v # vs) mfa = (if IsDefault v then v else firstDefault vs mfa)"

fun firstWithMethod :: "string \<Rightarrow> userProof list \<Rightarrow> userProof \<Rightarrow> userProof" where
  "firstWithMethod m [] mfa = mfa"
| "firstWithMethod m (v # vs) mfa =
     (if AuthMethodID v = m then v else firstWithMethod m vs mfa)"

definition selectMfa :: "IDPAccount \<Rightarrow> userProof list \<Rightarrow> userProof result" where
  "selectMfa idpAccount mfas =
     (case mfas of
        [] \<Rightarrow> Panic IndexOutOfRange
      | mfa0 # _ \<Rightarrow>
          Ok (if MFA idpAccount = ''Auto'' then firstDefault mfas mfa0
              else firstWithMethod (MFA idpAccount) mfas mfa0))"

definition processMfaBeginAuth ::
  "env \<Rightarrow> IDPAccount \<Rightarrow> userProof list \<Rightarrow> ConvergedResponse \<Rightarrow> session
     \<Rightarrow> mfaResponse result \<times> session" where
  "processMfaBeginAuth e idpAccount mfas convergedResponse s =
     (case selectMfa idpAccount mfas of
        Panic p \<Rightarrow> (Panic p, s)
      | Err x \<Rightarrow> (Err x, s)
      | Ok mfa \<Rightarrow>
          (let mfaReqObj = \<lparr>mfa_AuthMethodID = AuthMethodID mfa, mfa_Method = ''BeginAuth'',
                 mfa_Ctx = SCtx convergedResponse, mfa_FlowToken = SFT convergedResponse,
                 mfa_SessionID = [], AdditionalAuthData = []\<rparr>
           in if \<not> urlParses e (URLBeginAuth convergedResponse)
              then (Err (Wrap RequestError ''error building MFA BeginAuth request''), s)
              else
                (case Do e \<lparr>ReqMethod = ''POST'', ReqURL = URLBeginAuth convergedResponse,
                        ReqHeader = [(''Content-Type'', ''application/json'')],
                        ReqBody = MfaJson mfaReqObj\<rparr> s of
                   (Inl msg, s') \<Rightarrow>
                     (Err (Wrap (TransportError msg) ''error retrieving MFA BeginAuth results''), s')
                 | (Inr res, s') \<Rightarrow>
                     (case decodeMfa e (Body res) of
                        None \<Rightarrow> (Err (Wrap JsonError ''error decoding MFA BeginAuth results''), s')
                      | Some mfaResp \<Rightarrow>
                          if \<not> Success mfaResp then (Err (MfaBeginError (Message mfaResp)), s')
                          else (Ok mfaResp, s')))))"

text \<open>\<open>processMfaEndAuth\<close> (lines 566 to 595).\<close>

definition processMfaEndAuth ::
  "env \<Rightarrow> mfaRequest \<Rightarrow> ConvergedResponse \<Rightarrow> session \<Rightarrow> mfaResponse result \<times> session" where
  "processMfaEndAuth e mfaReqObj convergedResponse s =
     (if \<not> urlParses e (URLEndAuth convergedResponse)
      then (Err (Wrap RequestError ''error building MFA EndAuth request''), s)
      else
        (case Do e \<lparr>ReqMethod = ''POST'', ReqURL = URLEndAuth convergedResponse,
                ReqHeader = [(''Content-Type'', ''application/json'')],
                ReqBody = MfaJson mfaReqObj\<rparr> s of
           (Inl msg, s') \<Rightarrow>
             (Err (Wrap (TransportError msg) ''error retrieving MFA EndAuth results''), s')
         | (Inr res, s') \<Rightarrow>
             (case decodeMfa e (Body res) of
                None \<Rightarrow> (Err (Wrap JsonError ''error decoding MFA EndAuth results''), s')
              | Some mfaResp \<Rightarrow> (Ok mfaResp, s'))))"

text \<open>\<open>processMfaAuth\<close> (lines 597 to 620): the POST goes to \<open>URLPost\<close> as it is.\<close>

definition processMfaAuth ::
  "env \<Rightarrow> mfaResponse \<Rightarrow> ConvergedResponse \<Rightarrow> session \<Rightarrow> response result \<times> session" where
  "processMfaAuth e mfaResp convergedResponse s =
     (let formValues1 = Values_Set [] (SFTName convergedResponse) (resp_FlowToken mfaResp);
          formValues2 = Values_Set formValues1 ''request'' (resp_Ctx mfaResp);
          formValues = Values_Set formValues2 ''login'' (SPOSTUsername convergedResponse)
      in if \<not> urlParses e (URLPost convergedResponse)
         then (Err (Wrap RequestError ''error building MFA ProcessAuth request''), s)
         else
           (case Do e \<lparr>ReqMethod = ''POST'', ReqURL = URLPost convergedResponse,
                   ReqHeader = [(''Content-Type'', ''application/x-www-form-urlencoded'')],
                   ReqBody = FormBody formValues\<rparr> s of
              (Inl msg, s') \<Rightarrow>
                (Err (Wrap (TransportError msg) ''error retrieving MFA ProcessAuth results''), s')
            | (Inr res, s') \<Rightarrow> (Ok res, s')))"

text \<open>
  One pass through the body of the poll loop of \<open>processMfa\<close> (lines 453 to 493):
  \<open>Exit\<close> is a \<open>return\<close> (an error) or a \<open>break\<close> (the last response), and
  \<open>Continue\<close> carries the response the next pass starts from. \<open>time.Sleep\<close> changes
  nothing the model holds.
\<close>

datatype ('a, 'b) loop = Continue 'a | Exit 'b

definition pollTurn ::
  "env \<Rightarrow> ConvergedResponse \<Rightarrow> LoginDetails \<Rightarrow> nat \<Rightarrow> mfaResponse \<Rightarrow> session
     \<Rightarrow> (mfaResponse, mfaResponse result) loop \<times> session" where
  "pollTurn e convergedResponse loginDetails i mfaResp s =
     (let mfaReq0 = \<lparr>mfa_AuthMethodID = resp_AuthMethodID mfaResp, mfa_Method = ''EndAuth'',
            mfa_Ctx = resp_Ctx mfaResp, mfa_FlowToken = resp_FlowToken mfaResp,
            mfa_SessionID = resp_SessionID mfaResp, AdditionalAuthData = []\<rparr>;
          mfaReq =
            (if mfa_AuthMethodID mfaReq0 = ''PhoneAppOTP'' \<or> mfa_AuthMethodID mfaReq0 = ''OneWaySMS''
             then mfaReq0\<lparr>AdditionalAuthData :=
                    (if MFAToken loginDetails = []
                     then StringRequired e ''Enter verification code''
                     else MFAToken loginDetails)\<rparr>
             else mfaReq0);
          s0 =
            (if mfa_AuthMethodID mfaReq = ''PhoneAppNotification'' \<and> i = 0
             then s\<lparr>notices := notices s @
                    [if Entropy mfaResp = 0 then PhoneApprovalRequired
                     else PhoneApprovalEntropy (Entropy mfaResp)]\<rparr>
             else s)
      in case processMfaEndAuth e mfaReq convergedResponse s0 of
           (Panic p, s') \<Rightarrow> (Exit (Panic p), s')
         | (Err x, s') \<Rightarrow> (Exit (Err (Wrap x ''error processing MFA EndAuth'')), s')
         | (Ok mfaResp', s') \<Rightarrow>
             if ErrCode mfaResp' \<noteq> 0
             then (Exit (Err (MfaError (ErrCode mfaResp') (Message mfaResp'))), s')
             else if Success mfaResp' then (Exit (Ok mfaResp'), s')
             else if \<not> Retry mfaResp' then (Exit (Ok mfaResp'), s')
             else (Continue mfaResp', s'))"

text \<open>The poll loop: \<open>for i := 0; ; i++\<close>. It has no bound, so it may not return.\<close>

partial_function (option) pollLoop ::
  "env \<Rightarrow> ConvergedResponse \<Rightarrow> LoginDetails \<Rightarrow> nat \<Rightarrow> mfaResponse \<Rightarrow> session
     \<Rightarrow> (mfaResponse result \<times> session) option" where
  "pollLoop e convergedResponse loginDetails i mfaResp s =
     (case pollTurn e convergedResponse loginDetails i mfaResp s of
        (Continue mfaResp', s') \<Rightarrow> pollLoop e convergedResponse loginDetails (i + 1) mfaResp' s'
      | (Exit r, s') \<Rightarrow> Some (r, s'))"

text \<open>\<open>processMfa\<close> (lines 438 to 506).\<close>

definition processMfa ::
  "env \<Rightarrow> IDPAccount \<Rightarrow> userProof list \<Rightarrow> ConvergedResponse \<Rightarrow> LoginDetails \<Rightarrow> session
     \<Rightarrow> (response result \<times> session) option" where
  "processMfa e idpAccount mfas convergedResponse loginDetails s =
     (if length mfas = 0 then Some (Err (Errorf ''MFA not found''), s)
      else
        (case processMfaBeginAuth e idpAccount mfas convergedResponse s of
           (Panic p, s1) \<Rightarrow> Some (Panic p, s1)
         | (Err x, s1) \<Rightarrow> Some (Err (Wrap x ''error processing MFA BeginAuth''), s1)
         | (Ok mfaResp0, s1) \<Rightarrow>
             (case pollLoop e convergedResponse loginDetails 0 mfaResp0 s1 of
                None \<Rightarrow> None
              | Some (Panic p, s2) \<Rightarrow> Some (Panic p, s2)
              | Some (Err x, s2) \<Rightarrow> Some (Err x, s2)
              | Some (Ok mfaResp, s2) \<Rightarrow>
                  if \<not> Success mfaResp then Some (Err (Errorf ''error processing MFA''), s2)
                  else
                    (case processMfaAuth e mfaResp convergedResponse s2 of
                       (Panic p, s3) \<Rightarrow> Some (Panic p, s3)
                     | (Err x, s3) \<Rightarrow> Some (Err (Wrap x ''error processing MFA ProcessAuth''), s3)
                     | (Ok res, s3) \<Rightarrow> Some (Ok res, s3)))))"


text \<open>
  \<open>processSAMLRequest\<close> (lines 622 to 649). \<open>segmentUrl\<close> is the body of the
  \<open>if\<close> inside the loop (lines 631 to 636); the loop goes through every segment, so
  the last one that mentions \<open>SAMLRequest\<close> gives the URL.
\<close>

definition segmentUrl :: "string \<Rightarrow> string result" where
  "segmentUrl v =
     (let startURLPos = Index v ''https://'' in
      case slice_from v startURLPos of
        Panic p \<Rightarrow> Panic p
      | Err x \<Rightarrow> Err x
      | Ok rest \<Rightarrow>
          (let endURLPos0 = Index rest [squote];
               endURLPos = (if endURLPos0 = - 1 then Index rest [dquote] else endURLPos0)
           in slice v startURLPos (startURLPos + endURLPos)))"

fun scanSegments :: "string list \<Rightarrow> string \<Rightarrow> string result" where
  "scanSegments [] samlRequestUrl = Ok samlRequestUrl"
| "scanSegments (v # vs) samlRequestUrl =
     (if Contains v ''SAMLRequest''
      then (case segmentUrl v of
              Panic p \<Rightarrow> Panic p
            | Err x \<Rightarrow> Err x
            | Ok u \<Rightarrow> scanSegments vs u)
      else scanSegments vs samlRequestUrl)"

definition processSAMLRequest ::
  "env \<Rightarrow> response \<Rightarrow> string \<Rightarrow> session \<Rightarrow> response result \<times> session" where
  "processSAMLRequest e res srcBodyStr s =
     (let oidcResponseList = Split srcBodyStr (CHR '';'') in
      case scanSegments oidcResponseList [] of
        Panic p \<Rightarrow> (Panic p, s)
      | Err x \<Rightarrow> (Err x, s)
      | Ok samlRequestUrl \<Rightarrow>
          if samlRequestUrl = [] then (Err (Errorf ''unable to locate SAMLRequest URL''), s)
          else
            (case Get e samlRequestUrl s of
               (Inl msg, s') \<Rightarrow>
                 (Err (Wrap (TransportError msg) ''error retrieving SAMLRequest results''), s')
             | (Inr res', s') \<Rightarrow> (Ok res', s')))"


text \<open>\<open>reProcessForm\<close> (lines 702 to 730): the POST goes to the form's action as it is.\<close>

definition reProcessForm :: "env \<Rightarrow> string \<Rightarrow> session \<Rightarrow> response result \<times> session" where
  "reProcessForm e srcBodyStr s =
     (case reSubmitFormData e srcBodyStr of
        Panic p \<Rightarrow> (Panic p, s)
      | Err x \<Rightarrow> (Err (Wrap x ''failed to parse hiddenform form''), s)
      | Ok (formValues, formSubmitUrl) \<Rightarrow>
          if formSubmitUrl = [] then (Err (Errorf ''unable to locate hiddenform submit URL''), s)
          else if \<not> urlParses e formSubmitUrl
          then (Err (Wrap RequestError ''error building hiddenform request''), s)
          else
            (case Do e \<lparr>ReqMethod = ''POST'', ReqURL = formSubmitUrl,
                    ReqHeader = [(''Content-Type'', ''application/x-www-form-urlencoded'')],
                    ReqBody = FormBody formValues\<rparr> s of
               (Inl msg, s') \<Rightarrow>
                 (Err (Wrap (TransportError msg) ''error retrieving hiddenform results''), s')
             | (Inr res, s') \<Rightarrow> (Ok res, s')))"

section \<open>The orchestrator\<close>









section \<open>The tokens of the poll loop\<close>

text \<open>
  The triple (Ctx, FlowToken, SessionId) that an EndAuth request carries, the triple of
  a response, and what it means for a run of exchanges to be chained from a response
  \<open>r\<close>: each request carries the triple of the response decoded just before it, the
  first one that of \<open>r\<close>, and nothing follows an exchange without a decoded response.
\<close>

definition sentTriple :: "request \<Rightarrow> (string \<times> string \<times> string) option" where
  "sentTriple req =
     (case ReqBody req of
        MfaJson m \<Rightarrow>
          if mfa_Method m = ''EndAuth'' then Some (mfa_Ctx m, mfa_FlowToken m, mfa_SessionID m)
          else None
      | _ \<Rightarrow> None)"

definition receivedTriple :: "mfaResponse \<Rightarrow> string \<times> string \<times> string" where
  "receivedTriple r = (resp_Ctx r, resp_FlowToken r, resp_SessionID r)"

fun chained :: "env \<Rightarrow> mfaResponse \<Rightarrow> (request \<times> (string + response)) list \<Rightarrow> bool" where
  "chained e r [] = True"
| "chained e r ((req, reply) # rest) =
     (sentTriple req = Some (receivedTriple r)
      \<and> (case reply of
           Inl msg \<Rightarrow> rest = []
         | Inr res \<Rightarrow>
             (case decodeMfa e (Body res) of
                None \<Rightarrow> rest = []
              | Some r' \<Rightarrow> chained e r' rest)))"

section \<open>Pages on which a handler does nothing\<close>



section \<open>Concrete inputs\<close>

text \<open>Pages, proofs and servers on which the theorems below are evaluated.\<close>

definition tfa_with_samlrequest_body :: string where
  "tfa_with_samlrequest_body =
     ''<script>$Config={};//ConvergedTFA</script><script>x=1;SAMLRequest</script>''"

definition three_proofs :: "userProof list" where
  "three_proofs =
     [\<lparr>AuthMethodID = ''OneWaySMS'', Data = ''sms'', Display = ''+1 55'', IsDefault = False\<rparr>,
      \<lparr>AuthMethodID = ''PhoneAppOTP'', Data = ''otp'', Display = ''app'', IsDefault = True\<rparr>,
      \<lparr>AuthMethodID = ''PhoneAppNotification'', Data = ''push'', Display = ''app'',
        IsDefault = True\<rparr>]"

definition double_quote_first_segment :: string where
  "double_quote_first_segment =
     ''u='' @ [dquote] @ ''https://idp.example/saml?SAMLRequest=abc'' @ [dquote]
       @ '',t='' @ [squote] @ ''z'' @ [squote]"

definition empty_session :: session where
  "empty_session = \<lparr>follow_redirect = True, exchanges = [], notices = []\<rparr>"

definition page :: "string \<Rightarrow> response" where
  "page b = \<lparr>Body = b, RequestScheme = ''https'', RequestHost = ''login.microsoftonline.com'',
              RequestURLString = ''https://login.microsoftonline.com/common/login''\<rparr>"

text \<open>The zero value of \<open>ConvergedResponse\<close>.\<close>

definition zero_config :: ConvergedResponse where
  "zero_config =
     \<lparr>URLGetCredentialType = [], ArrUserProofs = [], URLSkipMfaRegistration = [],
      URLBeginAuth = [], URLEndAuth = [], URLPost = [], SErrorCode = [], SErrTxt = [],
      SPOSTUsername = [], SFT = [], SFTName = [], SCtx = [], Hpgact = 0, Hpgid = 0,
      Pgid = [], APICanary = [], Canary = [], CorrelationID = [], SessionID = []\<rparr>"

text \<open>An environment whose decoders reject every text and whose server cannot be reached.\<close>

definition closed_env :: env where
  "closed_env =
     \<lparr>decodeConverged = (\<lambda>t. DecodeFailed), decodeCredentialType = (\<lambda>t. None),
      decodeMfa = (\<lambda>t. None), parseHtml = (\<lambda>t. None), urlParses = (\<lambda>u. True),
      StringRequired = (\<lambda>p. ''000000''),
      roundTrip = (\<lambda>s req. Inl ''connection refused'')\<rparr>"

text \<open>Two pages of the SAMLRequest relay: one without a URL, one whose URL is not quoted.\<close>

definition relay_without_url :: string where
  "relay_without_url = ''<script>window.location = SAMLRequest;</script>''"

definition relay_without_quote :: string where
  "relay_without_quote = ''<script>window.location = https://idp.example/?SAMLRequest=abc;</script>''"

definition login_config :: ConvergedResponse where
  "login_config = zero_config\<lparr>SFTName := ''flowToken'', SFT := ''f0'', SCtx := ''c0'',
     Canary := ''k0'', SessionID := ''s0''\<rparr>"

definition alice :: LoginDetails where
  "alice = \<lparr>Username = ''alice@example.org'', Password = ''secret'', MFAToken = ''123456''\<rparr>"

text \<open>A KMSI page, the configuration a decoder reads from it, and an environment with
  that decoder whose server drops the connection.\<close>

definition kmsi_json :: string where
  \<open>kmsi_json = ''{"urlPost":"/kmsi","sFTName":"flowToken","sFT":"f0","sCtx":"c0"}''\<close>

definition kmsi_body :: string where
  "kmsi_body = ''<script>//KmsiInterrupt $Config='' @ kmsi_json @ '';</script>''"

definition kmsi_config :: ConvergedResponse where
  "kmsi_config = zero_config\<lparr>URLPost := ''/kmsi'', SFTName := ''flowToken'', SFT := ''f0'',
     SCtx := ''c0''\<rparr>"

definition kmsi_decoder :: "string \<Rightarrow> ConvergedResponse decoded" where
  "kmsi_decoder t = (if HasPrefix t kmsi_json then Decoded kmsi_config else DecodeFailed)"

definition dropping_env :: env where
  "dropping_env = closed_env\<lparr>decodeConverged := kmsi_decoder,
     roundTrip := (\<lambda>s req. Inl ''connection reset'')\<rparr>"

text \<open>A KMSI page without the marker \<open>$Config=\<close>, whose text from byte 7 on is JSON.\<close>

definition kmsi_body_without_marker :: string where
  "kmsi_body_without_marker = ''       '' @ kmsi_json @ ''//KmsiInterrupt''"

text \<open>A hidden form without an assertion whose action is relative, what goquery finds
  in it, an environment whose parser reads that form and whose server answers every
  request with an empty page, and a TFA configuration whose \<open>urlPost\<close> is relative.\<close>

definition relative_form_body :: string where
  \<open>relative_form_body = ''<html><head><title>Working...</title></head><body><form method="POST" name="hiddenform" action="/saml"><input type="hidden" name="RelayState" value="r0" /></form></body></html>''\<close>

definition answering_env :: env where
  "answering_env = closed_env\<lparr>decodeConverged := kmsi_decoder,
     parseHtml := (\<lambda>t. if t = relative_form_body
        then Some \<lparr>inputs = [(Some ''RelayState'', Some ''r0'')], forms = [Some ''/saml'']\<rparr>
        else None),
     roundTrip := (\<lambda>s req. Inr (page []))\<rparr>"

definition tfa_config :: ConvergedResponse where
  "tfa_config = zero_config\<lparr>URLPost := ''/common/SAS/ProcessAuth'', SFTName := ''flowToken'',
     SPOSTUsername := ''alice@example.org''\<rparr>"

definition mfa_done :: mfaResponse where
  "mfa_done = \<lparr>Success = True, ResultValue = ''Success'', Message = [],
     resp_AuthMethodID = ''PhoneAppOTP'', ErrCode = 0, Retry = False, resp_FlowToken = ''f2'',
     resp_Ctx = ''c2'', resp_SessionID = ''s2'', resp_CorrelationID = [], Entropy = 0\<rparr>"

text \<open>An MFA by phone notification that is approved at the second poll: the responses
  of BeginAuth and of the two EndAuth calls, a decoder for their texts and a server that
  sends them in this order.\<close>

definition mfa_begun :: mfaResponse where
  "mfa_begun = \<lparr>Success = True, ResultValue = ''Success'', Message = [],
     resp_AuthMethodID = ''PhoneAppNotification'', ErrCode = 0, Retry = False,
     resp_FlowToken = ''f1'', resp_Ctx = ''c1'', resp_SessionID = ''s1'',
     resp_CorrelationID = [], Entropy = 42\<rparr>"

definition mfa_pending :: mfaResponse where
  "mfa_pending = \<lparr>Success = False, ResultValue = ''AuthenticationPending'', Message = [],
     resp_AuthMethodID = ''PhoneAppNotification'', ErrCode = 0, Retry = True,
     resp_FlowToken = ''f2'', resp_Ctx = ''c2'', resp_SessionID = ''s2'',
     resp_CorrelationID = [], Entropy = 0\<rparr>"

definition mfa_approved :: mfaResponse where
  "mfa_approved = \<lparr>Success = True, ResultValue = ''Success'', Message = [],
     resp_AuthMethodID = ''PhoneAppNotification'', ErrCode = 0, Retry = False,
     resp_FlowToken = ''f3'', resp_Ctx = ''c3'', resp_SessionID = ''s3'',
     resp_CorrelationID = [], Entropy = 0\<rparr>"

definition mfa_decoder :: "string \<Rightarrow> mfaResponse option" where
  "mfa_decoder t =
     (if t = ''begun'' then Some mfa_begun
      else if t = ''pending'' then Some mfa_pending
      else if t = ''approved'' then Some mfa_approved
      else None)"

definition polling_env :: env where
  "polling_env = closed_env\<lparr>decodeMfa := mfa_decoder,
     roundTrip := (\<lambda>s req.
        if length (exchanges s) = 0 then Inr (page ''begun'')
        else if length (exchanges s) = 1 then Inr (page ''pending'')
        else if length (exchanges s) = 2 then Inr (page ''approved'')
        else Inr (page []))\<rparr>"

definition push_account :: IDPAccount where
  "push_account = \<lparr>URL = ''https://account.activedirectory.windowsazure.com'', AppID = ''app'',
     MFA = ''PhoneAppNotification''\<rparr>"

definition poll_config :: ConvergedResponse where
  "poll_config = zero_config\<lparr>URLEndAuth := ''https://login.microsoftonline.com/common/SAS/EndAuth'',
     URLBeginAuth := ''https://login.microsoftonline.com/common/SAS/BeginAuth'',
     URLPost := ''https://login.microsoftonline.com/common/SAS/ProcessAuth'',
     SFTName := ''flowToken'', SFT := ''f0'', SCtx := ''c0''\<rparr>"







text \<open>An environment whose URL parser rejects the text \<open>%zz\<close>, an invalid escape, as
  \<open>url.Parse\<close> does.\<close>

definition strict_env :: env where
  "strict_env = closed_env\<lparr>urlParses := (\<lambda>u. u \<noteq> ''%zz'')\<rparr>"

section \<open>Facts about the string primitives\<close>

lemma HasPrefix_iff: "HasPrefix s p \<longleftrightarrow> (\<exists>q. s = p @ q)"
  by (induction s p rule: HasPrefix.induct) auto

lemma first_occurrence_None_iff:
  "first_occurrence s sub = None \<longleftrightarrow> (\<forall>k \<le> length s. \<not> HasPrefix (drop k s) sub)"
proof (induction s)
  case Nil
  then show ?case by (cases sub) auto
next
  case (Cons c cs)
  show ?case
  proof (cases "HasPrefix (c # cs) sub")
    case True
    then have "HasPrefix (drop 0 (c # cs)) sub" by simp
    with True show ?thesis by (metis first_occurrence.simps(2) option.distinct(1) le0)
  next
    case False
    have "(\<forall>k \<le> length (c # cs). \<not> HasPrefix (drop k (c # cs)) sub)
          \<longleftrightarrow> (\<forall>k \<le> length cs. \<not> HasPrefix (drop k cs) sub)"
    proof
      assume a: "\<forall>k \<le> length (c # cs). \<not> HasPrefix (drop k (c # cs)) sub"
      show "\<forall>k \<le> length cs. \<not> HasPrefix (drop k cs) sub"
      proof (intro allI impI)
        fix k assume "k \<le> length cs"
        then have "Suc k \<le> length (c # cs)" by simp
        with a have "\<not> HasPrefix (drop (Suc k) (c # cs)) sub" by blast
        then show "\<not> HasPrefix (drop k cs) sub" by simp
      qed
    next
      assume a: "\<forall>k \<le> length cs. \<not> HasPrefix (drop k cs) sub"
      show "\<forall>k \<le> length (c # cs). \<not> HasPrefix (drop k (c # cs)) sub"
      proof (intro allI impI)
        fix k assume k: "k \<le> length (c # cs)"
        show "\<not> HasPrefix (drop k (c # cs)) sub"
        proof (cases k)
          case 0
          with False show ?thesis by simp
        next
          case (Suc j)
          with k a show ?thesis by simp
        qed
      qed
    qed
    with False Cons show ?thesis by simp
  qed
qed

lemma first_occurrence_Some:
  "first_occurrence s sub = Some i \<Longrightarrow>
     i \<le> length s \<and> HasPrefix (drop i s) sub \<and> (\<forall>k < i. \<not> HasPrefix (drop k s) sub)"
proof (induction s arbitrary: i)
  case Nil
  then show ?case by (auto split: if_splits)
next
  case (Cons c cs)
  show ?case
  proof (cases "HasPrefix (c # cs) sub")
    case True
    with Cons.prems show ?thesis by simp
  next
    case False
    with Cons.prems obtain j where j: "first_occurrence cs sub = Some j" "i = Suc j"
      by auto
    from Cons.IH[OF j(1)] have ih:
      "j \<le> length cs" "HasPrefix (drop j cs) sub" "\<forall>k < j. \<not> HasPrefix (drop k cs) sub"
      by auto
    have "\<forall>k < i. \<not> HasPrefix (drop k (c # cs)) sub"
    proof (intro allI impI)
      fix k assume "k < i"
      show "\<not> HasPrefix (drop k (c # cs)) sub"
      proof (cases k)
        case 0
        with False show ?thesis by simp
      next
        case (Suc m)
        with \<open>k < i\<close> j(2) ih(3) show ?thesis by simp
      qed
    qed
    with ih j(2) show ?thesis by simp
  qed
qed

lemma Contains_iff: "Contains s sub \<longleftrightarrow> (\<exists>p q. s = p @ sub @ q)"
proof
  assume "Contains s sub"
  then obtain i where i: "first_occurrence s sub = Some i"
    by (auto simp: Contains_def Index_def split: option.splits)
  from first_occurrence_Some[OF i] obtain q where "drop i s = sub @ q"
    by (auto simp: HasPrefix_iff)
  then have "s = take i s @ sub @ q" by (metis append_take_drop_id)
  then show "\<exists>p q. s = p @ sub @ q" by blast
next
  assume "\<exists>p q. s = p @ sub @ q"
  then obtain p q where s: "s = p @ sub @ q" by blast
  have "HasPrefix (drop (length p) s) sub" by (simp add: s HasPrefix_iff)
  moreover have "length p \<le> length s" by (simp add: s)
  ultimately have "first_occurrence s sub \<noteq> None"
    using first_occurrence_None_iff by blast
  then show "Contains s sub"
    by (auto simp: Contains_def Index_def split: option.splits)
qed

lemma first_occurrence_char_None: "first_occurrence s [c] = None \<longleftrightarrow> c \<notin> set s"
  by (induction s) auto

lemma first_occurrence_le: "first_occurrence s sub = Some i \<Longrightarrow> i \<le> length s"
  using first_occurrence_Some by blast

lemma Index_Some: "first_occurrence s sub = Some i \<Longrightarrow> Index s sub = int i"
  by (simp add: Index_def)

lemma Index_None: "first_occurrence s sub = None \<Longrightarrow> Index s sub = - 1"
  by (simp add: Index_def)

lemma Contains_first_occurrence: "Contains s sub \<longleftrightarrow> first_occurrence s sub \<noteq> None"
  by (auto simp: Contains_def Index_def split: option.splits)

section \<open>Page classification is a first-match decision list\<close>

text \<open>
  Claim C9. The page kind is a function of the body alone and every body has exactly one
  kind. The cases are tried in the order SIGNIN, PROOFUP_REDIRECT, KMSI, TFA, SAMLREQ,
  HIDDEN_FORM, UNKNOWN and the first that matches wins: a kind is chosen exactly when
  its own test holds and the test of every earlier kind fails. So a body with both
  \<open>ConvergedTFA\<close> and \<open>SAMLRequest\<close> (and none of the three markers tried before)
  is a TFA page and a body with \<open>ConvergedTFA\<close> is never a SAMLREQ page;
  HIDDEN_FORM needs the body to begin with the \<open>Working...\<close> prefix and to contain
  \<open>name="hiddenform"\<close>.
\<close>

theorem classify_first_match_wins:
  "(\<exists>!k. classify b = k)
   \<and> (classify b = SIGNIN \<longleftrightarrow> Contains b ''ConvergedSignIn'')
   \<and> (classify b = PROOFUP_REDIRECT \<longleftrightarrow>
        \<not> Contains b ''ConvergedSignIn'' \<and> Contains b ''ConvergedProofUpRedirect'')
   \<and> (classify b = KMSI \<longleftrightarrow>
        \<not> Contains b ''ConvergedSignIn'' \<and> \<not> Contains b ''ConvergedProofUpRedirect''
        \<and> Contains b ''KmsiInterrupt'')
   \<and> (classify b = TFA \<longleftrightarrow>
        \<not> Contains b ''ConvergedSignIn'' \<and> \<not> Contains b ''ConvergedProofUpRedirect''
        \<and> \<not> Contains b ''KmsiInterrupt'' \<and> Contains b ''ConvergedTFA'')
   \<and> (classify b = SAMLREQ \<longleftrightarrow>
        \<not> Contains b ''ConvergedSignIn'' \<and> \<not> Contains b ''ConvergedProofUpRedirect''
        \<and> \<not> Contains b ''KmsiInterrupt'' \<and> \<not> Contains b ''ConvergedTFA''
        \<and> Contains b ''SAMLRequest'')
   \<and> (classify b = HIDDEN_FORM \<longleftrightarrow>
        \<not> Contains b ''ConvergedSignIn'' \<and> \<not> Contains b ''ConvergedProofUpRedirect''
        \<and> \<not> Contains b ''KmsiInterrupt'' \<and> \<not> Contains b ''ConvergedTFA''
        \<and> \<not> Contains b ''SAMLRequest''
        \<and> HasPrefix b ''<html><head><title>Working...</title>''
        \<and> Contains b (''name='' @ [CHR 0x22] @ ''hiddenform'' @ [CHR 0x22]))
   \<and> (classify b = UNKNOWN \<longleftrightarrow>
        \<not> Contains b ''ConvergedSignIn'' \<and> \<not> Contains b ''ConvergedProofUpRedirect''
        \<and> \<not> Contains b ''KmsiInterrupt'' \<and> \<not> Contains b ''ConvergedTFA''
        \<and> \<not> Contains b ''SAMLRequest''
        \<and> \<not> (HasPrefix b ''<html><head><title>Working...</title>''
             \<and> Contains b (''name='' @ [CHR 0x22] @ ''hiddenform'' @ [CHR 0x22])))
   \<and> (Contains b ''ConvergedTFA'' \<and> Contains b ''SAMLRequest''
        \<and> \<not> Contains b ''ConvergedSignIn'' \<and> \<not> Contains b ''ConvergedProofUpRedirect''
        \<and> \<not> Contains b ''KmsiInterrupt'' \<longrightarrow> classify b = TFA)
   \<and> (Contains b ''ConvergedTFA'' \<longrightarrow> classify b \<noteq> SAMLREQ)"
  unfolding classify_def isHiddenForm_def working_prefix_def hiddenform_marker_def dquote_def
  by simp

theorem classify_first_match_wins_witness:
  "Contains tfa_with_samlrequest_body ''ConvergedTFA''
   \<and> Contains tfa_with_samlrequest_body ''SAMLRequest''
   \<and> classify tfa_with_samlrequest_body = TFA"
proof -
  have c: "Contains tfa_with_samlrequest_body ''ConvergedTFA''"
          "Contains tfa_with_samlrequest_body ''SAMLRequest''"
          "\<not> Contains tfa_with_samlrequest_body ''ConvergedSignIn''"
          "\<not> Contains tfa_with_samlrequest_body ''ConvergedProofUpRedirect''"
          "\<not> Contains tfa_with_samlrequest_body ''KmsiInterrupt''"
    by (simp_all add: tfa_with_samlrequest_body_def Contains_def Index_def)
  with classify_first_match_wins[of tfa_with_samlrequest_body] show ?thesis by blast
qed

section \<open>MFA method selection\<close>

lemma firstDefault_find:
  "firstDefault mfas mfa = (case find IsDefault mfas of Some p \<Rightarrow> p | None \<Rightarrow> mfa)"
  by (induction mfas) auto

lemma firstWithMethod_find:
  "firstWithMethod m mfas mfa =
     (case find (\<lambda>p. AuthMethodID p = m) mfas of Some p \<Rightarrow> p | None \<Rightarrow> mfa)"
  by (induction mfas) auto

text \<open>
  Claim C7. For a non-empty list of proofs: with the preferred method \<open>Auto\<close> the
  selection is the first proof whose \<open>IsDefault\<close> is set, and the first proof of
  the list when none is; with any other preferred method it is the first proof whose
  \<open>AuthMethodID\<close> equals it, and the first proof of the list when none does.
\<close>

theorem selectMfa_first_match:
  assumes "mfas \<noteq> []"
  shows "(MFA idpAccount = ''Auto'' \<longrightarrow>
            selectMfa idpAccount mfas =
              Ok (case find IsDefault mfas of Some p \<Rightarrow> p | None \<Rightarrow> mfas ! 0))
         \<and> (MFA idpAccount \<noteq> ''Auto'' \<longrightarrow>
            selectMfa idpAccount mfas =
              Ok (case find (\<lambda>p. AuthMethodID p = MFA idpAccount) mfas of
                    Some p \<Rightarrow> p | None \<Rightarrow> mfas ! 0))"
proof -
  from assms obtain mfa0 rest where m: "mfas = mfa0 # rest" by (cases mfas) auto
  have z: "mfas ! 0 = mfa0" by (simp add: m)
  have s: "selectMfa idpAccount mfas =
             Ok (if MFA idpAccount = ''Auto'' then firstDefault mfas mfa0
                 else firstWithMethod (MFA idpAccount) mfas mfa0)"
    by (simp add: selectMfa_def m)
  show ?thesis
    unfolding s z firstDefault_find firstWithMethod_find by simp
qed

theorem selectMfa_first_match_witness:
  "three_proofs \<noteq> []
   \<and> selectMfa \<lparr>URL = ''https://account.activedirectory.windowsazure.com'', AppID = ''app'',
          MFA = ''Auto''\<rparr> three_proofs = Ok (three_proofs ! 1)
   \<and> selectMfa \<lparr>URL = ''https://account.activedirectory.windowsazure.com'', AppID = ''app'',
          MFA = ''PhoneAppNotification''\<rparr> three_proofs = Ok (three_proofs ! 2)
   \<and> selectMfa \<lparr>URL = ''https://account.activedirectory.windowsazure.com'', AppID = ''app'',
          MFA = ''TwoWayVoiceMobile''\<rparr> three_proofs = Ok (three_proofs ! 0)"
proof -
  have n: "three_proofs \<noteq> []" by (simp add: three_proofs_def)
  show ?thesis
    using n
      selectMfa_first_match[OF n, of "\<lparr>URL = ''https://account.activedirectory.windowsazure.com'',
        AppID = ''app'', MFA = ''Auto''\<rparr>"]
      selectMfa_first_match[OF n, of "\<lparr>URL = ''https://account.activedirectory.windowsazure.com'',
        AppID = ''app'', MFA = ''PhoneAppNotification''\<rparr>"]
      selectMfa_first_match[OF n, of "\<lparr>URL = ''https://account.activedirectory.windowsazure.com'',
        AppID = ''app'', MFA = ''TwoWayVoiceMobile''\<rparr>"]
    by (simp add: three_proofs_def)
qed

section \<open>The URL of the SAMLRequest relay\<close>

lemma segmentUrl_found:
  assumes "first_occurrence v ''https://'' = Some p"
  shows "segmentUrl v =
           (let rest = drop p v;
                endURLPos = (if Index rest [squote] = - 1 then Index rest [dquote]
                             else Index rest [squote])
            in slice v (int p) (int p + endURLPos))"
proof -
  have "p \<le> length v" using assms by (rule first_occurrence_le)
  then show ?thesis
    by (simp add: segmentUrl_def Index_Some[OF assms] slice_from_def Let_def)
qed

lemma slice_take_drop:
  assumes "p \<le> length v" "q \<le> length (drop p v)"
  shows "slice v (int p) (int p + int q) = Ok (take q (drop p v))"
  using assms by (simp add: slice_def)

text \<open>
  Claim C4, as amended. In a segment whose first \<open>https://\<close> is at \<open>p\<close>, the URL
  ends at the first single quote after \<open>p\<close> whenever there is one; the first double
  quote is used only when no single quote follows. The slice is therefore up to the
  minimum of the two indices when the single quote comes first. The loop applies this to
  every segment that contains \<open>SAMLRequest\<close>.
\<close>

theorem segmentUrl_single_quote_first:
  assumes "first_occurrence v ''https://'' = Some p"
  shows "(first_occurrence (drop p v) [squote] = Some q \<longrightarrow>
            segmentUrl v = Ok (take q (drop p v)))
         \<and> (first_occurrence (drop p v) [squote] = None
              \<and> first_occurrence (drop p v) [dquote] = Some q \<longrightarrow>
            segmentUrl v = Ok (take q (drop p v)))
         \<and> (first_occurrence (drop p v) [squote] = Some q1
              \<and> first_occurrence (drop p v) [dquote] = Some q2 \<and> q1 \<le> q2 \<longrightarrow>
            segmentUrl v = Ok (take (min q1 q2) (drop p v)))
         \<and> (Contains v ''SAMLRequest'' \<longrightarrow>
            scanSegments [v] u = (case segmentUrl v of Ok w \<Rightarrow> Ok w | Err x \<Rightarrow> Err x
                                  | Panic c \<Rightarrow> Panic c))"
proof (intro conjI impI)
  note pv = first_occurrence_le[OF assms]
  note std = slice_take_drop[OF pv]
  assume a: "first_occurrence (drop p v) [squote] = Some q"
  then have "q \<le> length (drop p v)" by (rule first_occurrence_le)
  then show "segmentUrl v = Ok (take q (drop p v))"
    unfolding segmentUrl_found[OF assms] Let_def Index_Some[OF a]
    using std[of q] by simp
next
  assume a: "first_occurrence (drop p v) [squote] = None
             \<and> first_occurrence (drop p v) [dquote] = Some q"
  then have "q \<le> length (drop p v)" using first_occurrence_le by blast
  then show "segmentUrl v = Ok (take q (drop p v))"
    unfolding segmentUrl_found[OF assms] Let_def
    using a slice_take_drop[OF first_occurrence_le[OF assms], of q] by (simp add: Index_Some Index_None)
next
  assume a: "first_occurrence (drop p v) [squote] = Some q1
             \<and> first_occurrence (drop p v) [dquote] = Some q2 \<and> q1 \<le> q2"
  then have "q1 \<le> length (drop p v)" using first_occurrence_le by blast
  moreover from a have "min q1 q2 = q1" by simp
  ultimately show "segmentUrl v = Ok (take (min q1 q2) (drop p v))"
    unfolding segmentUrl_found[OF assms] Let_def
    using a slice_take_drop[OF first_occurrence_le[OF assms], of q1] by (simp add: Index_Some)
next
  assume "Contains v ''SAMLRequest''"
  then show "scanSegments [v] u = (case segmentUrl v of Ok w \<Rightarrow> Ok w | Err x \<Rightarrow> Err x
                                  | Panic c \<Rightarrow> Panic c)"
    by (simp split: result.splits)
qed

text \<open>
  Claim C4 as stated (the URL ends at whichever quote comes first) fails on a segment
  whose double quote precedes its single quote: the slice runs on to the single quote.
\<close>

theorem segmentUrl_minimum_counterexample:
  "Contains double_quote_first_segment ''SAMLRequest''
   \<and> first_occurrence double_quote_first_segment ''https://'' = Some 3
   \<and> first_occurrence (drop 3 double_quote_first_segment) [squote] = Some 44
   \<and> first_occurrence (drop 3 double_quote_first_segment) [dquote] = Some 40
   \<and> segmentUrl double_quote_first_segment
       = Ok (''https://idp.example/saml?SAMLRequest=abc'' @ [dquote] @ '',t='')
   \<and> segmentUrl double_quote_first_segment
       \<noteq> Ok (take (min 44 40) (drop 3 double_quote_first_segment))"
  by (simp add: double_quote_first_segment_def Contains_def Index_def segmentUrl_def
      slice_from_def slice_def squote_def dquote_def)

theorem segmentUrl_single_quote_first_witness:
  "first_occurrence double_quote_first_segment ''https://'' = Some 3
   \<and> first_occurrence (drop 3 double_quote_first_segment) [squote] = Some 44
   \<and> segmentUrl double_quote_first_segment = Ok (take 44 (drop 3 double_quote_first_segment))"
proof -
  have a: "first_occurrence double_quote_first_segment ''https://'' = Some 3"
    by (simp add: double_quote_first_segment_def squote_def dquote_def)
  have b: "first_occurrence (drop 3 double_quote_first_segment) [squote] = Some 44"
    by (simp add: double_quote_first_segment_def squote_def dquote_def)
  from segmentUrl_single_quote_first[OF a, of 44] a b show ?thesis by blast
qed

section \<open>The SAMLRequest relay can panic\<close>

lemma segmentUrl_no_https:
  assumes "first_occurrence v ''https://'' = None"
  shows "segmentUrl v = Panic SliceBoundsOutOfRange"
  by (simp add: segmentUrl_def Index_None[OF assms] slice_from_def)

lemma segmentUrl_no_quote:
  assumes "first_occurrence v ''https://'' = Some p"
    and "squote \<notin> set (drop p v)" and "dquote \<notin> set (drop p v)"
  shows "segmentUrl v = Panic SliceBoundsOutOfRange"
proof -
  have "Index (drop p v) [squote] = - 1" "Index (drop p v) [dquote] = - 1"
    using assms(2,3) by (simp_all add: Index_None first_occurrence_char_None)
  then show ?thesis
    unfolding segmentUrl_found[OF assms(1)] by (simp add: slice_def)
qed

lemma segmentUrl_never_Err: "segmentUrl v \<noteq> Err x"
  by (simp add: segmentUrl_def slice_from_def slice_def Let_def)

lemma scanSegments_panic:
  assumes "v \<in> set vs" and "Contains v ''SAMLRequest''"
    and "segmentUrl v = Panic SliceBoundsOutOfRange"
  shows "scanSegments vs u = Panic SliceBoundsOutOfRange"
  using assms(1)
proof (induction vs arbitrary: u)
  case Nil
  then show ?case by simp
next
  case (Cons w ws)
  show ?case
  proof (cases "Contains w ''SAMLRequest''")
    case False
    with assms(2) have "v \<noteq> w" by blast
    with Cons.prems have "v \<in> set ws" by simp
    with Cons.IH False show ?thesis by simp
  next
    case True
    show ?thesis
    proof (cases "segmentUrl w")
      case (Ok u')
      with assms(3) have "v \<noteq> w" by auto
      with Cons.prems have "v \<in> set ws" by simp
      with Cons.IH True Ok show ?thesis by simp
    next
      case (Err x)
      then show ?thesis using segmentUrl_never_Err by blast
    next
      case (Panic c)
      then have "c = SliceBoundsOutOfRange"
        by (auto simp: segmentUrl_def slice_from_def slice_def Let_def split: if_splits)
      with True Panic show ?thesis by simp
    qed
  qed
qed

text \<open>
  Claim C10. The relay is not total: when a segment of the body (split at \<open>;\<close>)
  contains \<open>SAMLRequest\<close> and either has no \<open>https://\<close>, or has neither a single nor a
  double quote from its first \<open>https://\<close> on, a slice index is out of range and
  \<open>processSAMLRequest\<close> panics; it does not return the error
  \<open>unable to locate SAMLRequest URL\<close>, and it makes no request.
\<close>

theorem processSAMLRequest_panics:
  assumes "v \<in> set (Split srcBodyStr (CHR '';''))"
    and "Contains v ''SAMLRequest''"
    and "\<not> Contains v ''https://''
         \<or> (\<exists>p. first_occurrence v ''https://'' = Some p
                \<and> squote \<notin> set (drop p v) \<and> dquote \<notin> set (drop p v))"
  shows "processSAMLRequest e res srcBodyStr s = (Panic SliceBoundsOutOfRange, s)
         \<and> fst (processSAMLRequest e res srcBodyStr s)
             \<noteq> Err (Errorf ''unable to locate SAMLRequest URL'')"
proof -
  from assms(3) have "segmentUrl v = Panic SliceBoundsOutOfRange"
    using segmentUrl_no_https segmentUrl_no_quote
    by (auto simp: Contains_first_occurrence)
  with assms(1,2) have "scanSegments (Split srcBodyStr (CHR '';'')) [] = Panic SliceBoundsOutOfRange"
    by (rule scanSegments_panic)
  then show ?thesis by (simp add: processSAMLRequest_def)
qed

theorem processSAMLRequest_panics_witness:
  "processSAMLRequest closed_env (page relay_without_url) relay_without_url empty_session
     = (Panic SliceBoundsOutOfRange, empty_session)
   \<and> processSAMLRequest closed_env (page relay_without_quote) relay_without_quote empty_session
     = (Panic SliceBoundsOutOfRange, empty_session)"
proof -
  let ?v1 = "''<script>window.location = SAMLRequest''"
  let ?v2 = "''<script>window.location = https://idp.example/?SAMLRequest=abc''"
  have a1: "?v1 \<in> set (Split relay_without_url (CHR '';''))"
    by (simp add: relay_without_url_def)
  have b1: "Contains ?v1 ''SAMLRequest''" by (simp add: Contains_def Index_def)
  have c1: "\<not> Contains ?v1 ''https://''" by (simp add: Contains_def Index_def)
  have a2: "?v2 \<in> set (Split relay_without_quote (CHR '';''))"
    by (simp add: relay_without_quote_def)
  have b2: "Contains ?v2 ''SAMLRequest''" by (simp add: Contains_def Index_def)
  have c2: "first_occurrence ?v2 ''https://'' = Some 26
            \<and> squote \<notin> set (drop 26 ?v2) \<and> dquote \<notin> set (drop 26 ?v2)"
    by (simp add: squote_def dquote_def)
  from processSAMLRequest_panics[OF a1 b1, of closed_env "page relay_without_url" empty_session]
       processSAMLRequest_panics[OF a2 b2, of closed_env "page relay_without_quote" empty_session]
       c1 c2
  show ?thesis by blast
qed

section \<open>The pre-check of the primary authentication\<close>

lemma processAuthentication_rejects:
  assumes "SErrorCode c \<noteq> []" "SErrorCode c \<noteq> ''50058''"
  shows "processAuthentication e loginUrl refererUrl loginDetails c s
           = (Err (LoginError (SErrorCode c)), s)"
  using assms by (simp add: processAuthentication_def)

lemma processAuthentication_proceeds:
  assumes "SErrorCode c = [] \<or> SErrorCode c = ''50058''"
  shows "processAuthentication e loginUrl refererUrl loginDetails c s =
           (if \<not> urlParses e loginUrl
            then (Err (Wrap RequestError ''error building login request''), s)
            else
              (let req = \<lparr>ReqMethod = ''POST'', ReqURL = loginUrl,
                      ReqHeader = [(''Content-Type'', ''application/x-www-form-urlencoded''),
                        (''Referer'', refererUrl)],
                      ReqBody = FormBody (loginForm loginDetails c)\<rparr>
               in (case roundTrip e s req of
                     Inl msg \<Rightarrow> Err (Wrap (TransportError msg) ''error retrieving login results'')
                   | Inr res \<Rightarrow> Ok res,
                   s\<lparr>exchanges := exchanges s @ [(req, roundTrip e s req)]\<rparr>)))"
  using assms
  by (auto simp add: processAuthentication_def Do_def Let_def loginForm_def
      simp del: Values_Set.simps split: sum.splits)


text \<open>
  Claim C5 as stated (the password POST is issued if and only if the error code is empty
  or \<open>50058\<close>) fails where \<open>http.NewRequest\<close> rejects the login URL: with the
  empty code and the URL \<open>%zz\<close> the handler returns the error of line 367 and the
  session is as before, no request was issued.
\<close>

theorem processAuthentication_issue_counterexample:
  "SErrorCode login_config = []
   \<and> processAuthentication strict_env ''%zz'' ''https://login.microsoftonline.com/'' alice
        login_config empty_session
       = (Err (Wrap RequestError ''error building login request''), empty_session)
   \<and> exchanges (snd (processAuthentication strict_env ''%zz''
        ''https://login.microsoftonline.com/'' alice login_config empty_session)) = []"
proof -
  have c: "SErrorCode login_config = []" by (simp add: login_config_def zero_config_def)
  have u: "\<not> urlParses strict_env ''%zz''" by (simp add: strict_env_def closed_env_def)
  have r: "processAuthentication strict_env ''%zz'' ''https://login.microsoftonline.com/'' alice
        login_config empty_session
       = (Err (Wrap RequestError ''error building login request''), empty_session)"
    using u by (simp add: processAuthentication_proceeds c)
  from c r show ?thesis by (simp add: empty_session_def)
qed

text \<open>
  Claim C5, as amended. With an error code that is neither empty nor \<open>50058\<close> the
  handler fails with the login error of that code and leaves the session as it was: no
  request was issued. With one of the two codes, and only then, it gets past the check
  and builds the password POST: if \<open>http.NewRequest\<close> accepts the login URL it
  issues exactly that one request, to the login URL, with the form and the headers of
  lines 356 to 371, and returns what the transport gives; if not, it returns the error of
  building the request and issues nothing. So the POST is issued if and only if the code
  is one of the two and the login URL is accepted.
\<close>

theorem processAuthentication_precheck:
  "(SErrorCode c \<noteq> [] \<and> SErrorCode c \<noteq> ''50058'' \<longrightarrow>
      processAuthentication e loginUrl refererUrl loginDetails c s
        = (Err (LoginError (SErrorCode c)), s))
   \<and> (SErrorCode c = [] \<or> SErrorCode c = ''50058'' \<longrightarrow>
      (\<forall>code. fst (processAuthentication e loginUrl refererUrl loginDetails c s)
                 \<noteq> Err (LoginError code)))
   \<and> ((SErrorCode c = [] \<or> SErrorCode c = ''50058'') \<and> urlParses e loginUrl \<longrightarrow>
      (\<exists>req. ReqMethod req = ''POST'' \<and> ReqURL req = loginUrl
         \<and> ReqHeader req = [(''Content-Type'', ''application/x-www-form-urlencoded''),
              (''Referer'', refererUrl)]
         \<and> ReqBody req = FormBody (Values_Set (Values_Set (Values_Set (Values_Set
              (Values_Set (Values_Set (Values_Set [] ''canary'' (Canary c))
              ''hpgrequestid'' (SessionID c)) (SFTName c) (SFT c)) ''ctx'' (SCtx c))
              ''login'' (Username loginDetails)) ''loginfmt'' (Username loginDetails))
              ''passwd'' (Password loginDetails))
         \<and> exchanges (snd (processAuthentication e loginUrl refererUrl loginDetails c s))
             = exchanges s @ [(req, roundTrip e s req)]
         \<and> fst (processAuthentication e loginUrl refererUrl loginDetails c s)
             = (case roundTrip e s req of
                  Inl msg \<Rightarrow> Err (Wrap (TransportError msg) ''error retrieving login results'')
                | Inr res \<Rightarrow> Ok res)))
   \<and> ((SErrorCode c = [] \<or> SErrorCode c = ''50058'') \<and> \<not> urlParses e loginUrl \<longrightarrow>
      processAuthentication e loginUrl refererUrl loginDetails c s
        = (Err (Wrap RequestError ''error building login request''), s))
   \<and> (exchanges (snd (processAuthentication e loginUrl refererUrl loginDetails c s))
         \<noteq> exchanges s
       \<longleftrightarrow> (SErrorCode c = [] \<or> SErrorCode c = ''50058'') \<and> urlParses e loginUrl)"
proof (intro conjI impI)
  assume "SErrorCode c \<noteq> [] \<and> SErrorCode c \<noteq> ''50058''"
  then show "processAuthentication e loginUrl refererUrl loginDetails c s
               = (Err (LoginError (SErrorCode c)), s)"
    by (simp add: processAuthentication_rejects)
next
  assume ok: "SErrorCode c = [] \<or> SErrorCode c = ''50058''"
  show "\<forall>code. fst (processAuthentication e loginUrl refererUrl loginDetails c s)
                 \<noteq> Err (LoginError code)"
    unfolding processAuthentication_proceeds[OF ok]
    by (simp add: Let_def split: sum.splits)
next
  assume "(SErrorCode c = [] \<or> SErrorCode c = ''50058'') \<and> urlParses e loginUrl"
  then have ok: "SErrorCode c = [] \<or> SErrorCode c = ''50058''" and u: "urlParses e loginUrl"
    by blast+
  let ?req = "\<lparr>ReqMethod = ''POST'', ReqURL = loginUrl,
                 ReqHeader = [(''Content-Type'', ''application/x-www-form-urlencoded''),
                   (''Referer'', refererUrl)],
                 ReqBody = FormBody (loginForm loginDetails c)\<rparr>"
  have f: "FormBody (loginForm loginDetails c) = FormBody (Values_Set (Values_Set (Values_Set (Values_Set
              (Values_Set (Values_Set (Values_Set [] ''canary'' (Canary c))
              ''hpgrequestid'' (SessionID c)) (SFTName c) (SFT c)) ''ctx'' (SCtx c))
              ''login'' (Username loginDetails)) ''loginfmt'' (Username loginDetails))
              ''passwd'' (Password loginDetails))"
    by (simp only: loginForm_def)
  have "ReqMethod ?req = ''POST'' \<and> ReqURL ?req = loginUrl
         \<and> ReqHeader ?req = [(''Content-Type'', ''application/x-www-form-urlencoded''),
              (''Referer'', refererUrl)]
         \<and> ReqBody ?req = FormBody (Values_Set (Values_Set (Values_Set (Values_Set
              (Values_Set (Values_Set (Values_Set [] ''canary'' (Canary c))
              ''hpgrequestid'' (SessionID c)) (SFTName c) (SFT c)) ''ctx'' (SCtx c))
              ''login'' (Username loginDetails)) ''loginfmt'' (Username loginDetails))
              ''passwd'' (Password loginDetails))
         \<and> exchanges (snd (processAuthentication e loginUrl refererUrl loginDetails c s))
             = exchanges s @ [(?req, roundTrip e s ?req)]
         \<and> fst (processAuthentication e loginUrl refererUrl loginDetails c s)
             = (case roundTrip e s ?req of
                  Inl msg \<Rightarrow> Err (Wrap (TransportError msg) ''error retrieving login results'')
                | Inr res \<Rightarrow> Ok res)"
    unfolding processAuthentication_proceeds[OF ok] f[symmetric] using u by (simp add: Let_def)
  then show "\<exists>req. ReqMethod req = ''POST'' \<and> ReqURL req = loginUrl
         \<and> ReqHeader req = [(''Content-Type'', ''application/x-www-form-urlencoded''),
              (''Referer'', refererUrl)]
         \<and> ReqBody req = FormBody (Values_Set (Values_Set (Values_Set (Values_Set
              (Values_Set (Values_Set (Values_Set [] ''canary'' (Canary c))
              ''hpgrequestid'' (SessionID c)) (SFTName c) (SFT c)) ''ctx'' (SCtx c))
              ''login'' (Username loginDetails)) ''loginfmt'' (Username loginDetails))
              ''passwd'' (Password loginDetails))
         \<and> exchanges (snd (processAuthentication e loginUrl refererUrl loginDetails c s))
             = exchanges s @ [(req, roundTrip e s req)]
         \<and> fst (processAuthentication e loginUrl refererUrl loginDetails c s)
             = (case roundTrip e s req of
                  Inl msg \<Rightarrow> Err (Wrap (TransportError msg) ''error retrieving login results'')
                | Inr res \<Rightarrow> Ok res)"
    by (rule exI)
next
  assume "(SErrorCode c = [] \<or> SErrorCode c = ''50058'') \<and> \<not> urlParses e loginUrl"
  then have ok: "SErrorCode c = [] \<or> SErrorCode c = ''50058''" and u: "\<not> urlParses e loginUrl"
    by blast+
  show "processAuthentication e loginUrl refererUrl loginDetails c s
        = (Err (Wrap RequestError ''error building login request''), s)"
    unfolding processAuthentication_proceeds[OF ok] using u by simp
next
  show "exchanges (snd (processAuthentication e loginUrl refererUrl loginDetails c s))
         \<noteq> exchanges s
       \<longleftrightarrow> (SErrorCode c = [] \<or> SErrorCode c = ''50058'') \<and> urlParses e loginUrl"
  proof (cases "SErrorCode c = [] \<or> SErrorCode c = ''50058''")
    case True
    then show ?thesis
      unfolding processAuthentication_proceeds[OF True] by (simp add: Let_def)
  next
    case False
    then show ?thesis by (simp add: processAuthentication_rejects)
  qed
qed

theorem processAuthentication_precheck_witness:
  "processAuthentication closed_env ''https://login.microsoftonline.com/common/login''
      ''https://login.microsoftonline.com/'' alice (login_config\<lparr>SErrorCode := ''50126''\<rparr>)
      empty_session
     = (Err (LoginError ''50126''), empty_session)
   \<and> length (exchanges (snd (processAuthentication closed_env
        ''https://login.microsoftonline.com/common/login'' ''https://login.microsoftonline.com/''
        alice (login_config\<lparr>SErrorCode := ''50058''\<rparr>) empty_session))) = 1
   \<and> length (exchanges (snd (processAuthentication closed_env
        ''https://login.microsoftonline.com/common/login'' ''https://login.microsoftonline.com/''
        alice login_config empty_session))) = 1
   \<and> processAuthentication strict_env ''%zz'' ''https://login.microsoftonline.com/'' alice
        login_config empty_session
       = (Err (Wrap RequestError ''error building login request''), empty_session)"
proof -
  have p: "urlParses closed_env ''https://login.microsoftonline.com/common/login''"
    by (simp add: closed_env_def)
  have c1: "SErrorCode (login_config\<lparr>SErrorCode := ''50126''\<rparr>) \<noteq> []
            \<and> SErrorCode (login_config\<lparr>SErrorCode := ''50126''\<rparr>) \<noteq> ''50058''"
    by simp
  have c2: "SErrorCode (login_config\<lparr>SErrorCode := ''50058''\<rparr>) = []
            \<or> SErrorCode (login_config\<lparr>SErrorCode := ''50058''\<rparr>) = ''50058''"
    by simp
  have c3: "SErrorCode login_config = [] \<or> SErrorCode login_config = ''50058''"
    by (simp add: login_config_def zero_config_def)
  have e: "exchanges empty_session = []" by (simp add: empty_session_def)
  have n: "\<not> urlParses strict_env ''%zz''" by (simp add: strict_env_def closed_env_def)
  note t1 = processAuthentication_precheck[where c = "login_config\<lparr>SErrorCode := ''50126''\<rparr>" and e = closed_env
         and loginUrl = "''https://login.microsoftonline.com/common/login''" and loginDetails = alice
         and refererUrl = "''https://login.microsoftonline.com/''" and s = empty_session]
  note r1 = t1[THEN conjunct1, THEN mp, OF c1]
  note t2 = processAuthentication_precheck[where c = "login_config\<lparr>SErrorCode := ''50058''\<rparr>" and e = closed_env
         and loginUrl = "''https://login.microsoftonline.com/common/login''" and loginDetails = alice
         and refererUrl = "''https://login.microsoftonline.com/''" and s = empty_session]
  from t2[THEN conjunct2, THEN conjunct2, THEN conjunct1, THEN mp, OF conjI[OF c2 p]] e
  have r2: "length (exchanges (snd (processAuthentication closed_env
        ''https://login.microsoftonline.com/common/login'' ''https://login.microsoftonline.com/''
        alice (login_config\<lparr>SErrorCode := ''50058''\<rparr>) empty_session))) = 1"
    by auto
  note t3 = processAuthentication_precheck[where c = "login_config" and e = closed_env
         and loginUrl = "''https://login.microsoftonline.com/common/login''" and loginDetails = alice
         and refererUrl = "''https://login.microsoftonline.com/''" and s = empty_session]
  from t3[THEN conjunct2, THEN conjunct2, THEN conjunct1, THEN mp, OF conjI[OF c3 p]] e
  have r3: "length (exchanges (snd (processAuthentication closed_env
        ''https://login.microsoftonline.com/common/login'' ''https://login.microsoftonline.com/''
        alice login_config empty_session))) = 1"
    by auto
  note t4 = processAuthentication_precheck[where c = "login_config" and e = strict_env
         and loginUrl = "''%zz''" and loginDetails = alice
         and refererUrl = "''https://login.microsoftonline.com/''" and s = empty_session]
  note r4 = t4[THEN conjunct2, THEN conjunct2, THEN conjunct2, THEN conjunct1, THEN mp,
         OF conjI[OF c3 n]]
  from r1 r2 r3 r4 show ?thesis by simp
qed

section \<open>The embedded-config extractor without its marker\<close>

lemma unmarshalEmbeddedJson_marker_absent:
  assumes "\<not> Contains resBodyStr ''$Config=''"
  shows "unmarshalEmbeddedJson e resBodyStr =
           (if length resBodyStr < 7 then Panic SliceBoundsOutOfRange
            else (case decodeConverged e (drop 7 resBodyStr) of
                    DecodeFailed \<Rightarrow> Err JsonError
                  | DecodedNull \<Rightarrow> Ok None
                  | Decoded c \<Rightarrow> Ok (Some c)))"
proof -
  from assms have "Index resBodyStr ''$Config='' = - 1"
    by (simp add: Contains_first_occurrence Index_None)
  then show ?thesis
    by (simp add: unmarshalEmbeddedJson_def slice_from_def)
qed

lemma unmarshalEmbeddedJson_marker_present:
  assumes "first_occurrence resBodyStr ''$Config='' = Some i"
  shows "unmarshalEmbeddedJson e resBodyStr =
           (case decodeConverged e (drop (i + 8) resBodyStr) of
              DecodeFailed \<Rightarrow> Err JsonError
            | DecodedNull \<Rightarrow> Ok None
            | Decoded c \<Rightarrow> Ok (Some c))"
proof -
  from first_occurrence_Some[OF assms] obtain q where "drop i resBodyStr = ''$Config='' @ q"
    by (auto simp: HasPrefix_iff)
  then have "length (drop i resBodyStr) \<ge> 8" by simp
  then have "i + 8 \<le> length resBodyStr" by simp
  moreover have "nat (int i + 8) = i + 8" by simp
  ultimately show ?thesis
    by (simp add: unmarshalEmbeddedJson_def Index_Some[OF assms] slice_from_def)
qed

text \<open>
  Claim C3, on the code. On a body without the marker \<open>$Config=\<close> the start index is
  \<open>-1 + 8 = 7\<close>: a body shorter than 7 bytes makes the slice panic, and on a longer one
  the decoder is run on the text from byte 7 on, and what it decodes there is the result.
  The KMSI page below has no marker and is handed on to the decoder from its JSON text on.
\<close>

theorem unmarshalEmbeddedJson_without_marker:
  "\<not> Contains kmsi_body_without_marker ''$Config=''
   \<and> unmarshalEmbeddedJson e kmsi_body_without_marker
       = (case decodeConverged e (kmsi_json @ ''//KmsiInterrupt'') of
            DecodeFailed \<Rightarrow> Err JsonError
          | DecodedNull \<Rightarrow> Ok None
          | Decoded c \<Rightarrow> Ok (Some c))
   \<and> unmarshalEmbeddedJson dropping_env kmsi_body_without_marker = Ok (Some kmsi_config)
   \<and> unmarshalEmbeddedJson e [] = Panic SliceBoundsOutOfRange"
proof -
  have a: "\<not> Contains kmsi_body_without_marker ''$Config=''"
    by (simp add: kmsi_body_without_marker_def kmsi_json_def Contains_def Index_def)
  have d: "drop 7 kmsi_body_without_marker = kmsi_json @ ''//KmsiInterrupt''"
    by (simp add: kmsi_body_without_marker_def)
  have l: "\<not> length kmsi_body_without_marker < 7"
    by (simp add: kmsi_body_without_marker_def)
  have b: "unmarshalEmbeddedJson e kmsi_body_without_marker
       = (case decodeConverged e (kmsi_json @ ''//KmsiInterrupt'') of
            DecodeFailed \<Rightarrow> Err JsonError
          | DecodedNull \<Rightarrow> Ok None
          | Decoded c \<Rightarrow> Ok (Some c))" for e
    unfolding unmarshalEmbeddedJson_marker_absent[OF a] d using l by simp
  have k: "decodeConverged dropping_env (kmsi_json @ ''//KmsiInterrupt'') = Decoded kmsi_config"
    by (simp add: dropping_env_def closed_env_def kmsi_decoder_def HasPrefix_iff)
  have c: "unmarshalEmbeddedJson dropping_env kmsi_body_without_marker = Ok (Some kmsi_config)"
    unfolding b k by simp
  have n: "\<not> Contains [] ''$Config=''" by (simp add: Contains_def Index_def)
  have p: "unmarshalEmbeddedJson e [] = Panic SliceBoundsOutOfRange"
    unfolding unmarshalEmbeddedJson_marker_absent[OF n] by simp
  from a b c p show ?thesis by blast
qed

section \<open>Which request targets are resolved\<close>

lemma fullUrl_relative:
  "fullUrl (page b) ''/common/SAS/ProcessAuth''
     = ''https://login.microsoftonline.com/common/SAS/ProcessAuth''"
  by (simp add: fullUrl_def page_def)

text \<open>
  Claim C6, on the code. The MFA-finalise POST and the hidden-form re-POST take their
  target as it is: with the relative \<open>urlPost\<close> \<open>/common/SAS/ProcessAuth\<close> and the
  relative action \<open>/saml\<close> of a hidden form the requests go to these fragments, where the rule gives
  \<open>https://login.microsoftonline.com/common/SAS/ProcessAuth\<close> and
  \<open>https://login.microsoftonline.com/saml\<close>. The KMSI handler, on the relative
  \<open>urlPost\<close> \<open>/kmsi\<close>, posts to the resolved URL.
\<close>

theorem finalise_and_hidden_form_targets_unresolved:
  "map (ReqURL \<circ> fst) (exchanges (snd (processMfaAuth answering_env mfa_done tfa_config
       empty_session))) = [''/common/SAS/ProcessAuth'']
   \<and> fullUrl (page []) (URLPost tfa_config)
       = ''https://login.microsoftonline.com/common/SAS/ProcessAuth''
   \<and> classify relative_form_body = HIDDEN_FORM
   \<and> getSamlAssertion answering_env relative_form_body = []
   \<and> map (ReqURL \<circ> fst) (exchanges (snd (reProcessForm answering_env relative_form_body
         empty_session))) = [''/saml'']
   \<and> fullUrl (page relative_form_body) ''/saml'' = ''https://login.microsoftonline.com/saml''
   \<and> map (ReqURL \<circ> fst) (exchanges (snd (processKmsiInterrupt answering_env (page kmsi_body)
       kmsi_body empty_session))) = [''https://login.microsoftonline.com/kmsi'']"
proof -
  have u: "urlParses answering_env = (\<lambda>u. True)"
    by (simp add: answering_env_def closed_env_def)
  have a: "map (ReqURL \<circ> fst) (exchanges (snd (processMfaAuth answering_env mfa_done tfa_config
       empty_session))) = [''/common/SAS/ProcessAuth'']"
    by (simp add: processMfaAuth_def Do_def Let_def u tfa_config_def zero_config_def
        empty_session_def split: sum.splits del: Values_Set.simps)
  have b: "fullUrl (page []) (URLPost tfa_config)
       = ''https://login.microsoftonline.com/common/SAS/ProcessAuth''"
    by (simp add: fullUrl_def page_def tfa_config_def)
  have p: "parseHtml answering_env relative_form_body
             = Some \<lparr>inputs = [(Some ''RelayState'', Some ''r0'')], forms = [Some ''/saml'']\<rparr>"
    by (simp add: answering_env_def closed_env_def)
  have ck: "classify relative_form_body = HIDDEN_FORM"
    by (simp add: classify_def relative_form_body_def working_prefix_def hiddenform_marker_def
        dquote_def isHiddenForm_def Contains_def Index_def)
  have cg: "getSamlAssertion answering_env relative_form_body = []"
    by (simp add: getSamlAssertion_def p)
  have c: "map (ReqURL \<circ> fst) (exchanges (snd (reProcessForm answering_env relative_form_body
         empty_session))) = [''/saml'']"
    by (simp add: reProcessForm_def reSubmitFormData_def p Do_def Let_def u empty_session_def
        split: sum.splits)
  have d: "fullUrl (page relative_form_body) ''/saml'' = ''https://login.microsoftonline.com/saml''"
    by (simp add: fullUrl_def page_def)
  have i: "first_occurrence kmsi_body ''$Config='' = Some 24"
    by (simp add: kmsi_body_def)
  have k: "decodeConverged answering_env (drop (24 + 8) kmsi_body) = Decoded kmsi_config"
    by (simp add: answering_env_def closed_env_def kmsi_decoder_def kmsi_body_def HasPrefix_iff)
  have f: "fullUrl (page kmsi_body) (URLPost kmsi_config) = ''https://login.microsoftonline.com/kmsi''"
    by (simp add: fullUrl_def page_def kmsi_config_def)
  have g: "map (ReqURL \<circ> fst) (exchanges (snd (processKmsiInterrupt answering_env (page kmsi_body)
       kmsi_body empty_session))) = [''https://login.microsoftonline.com/kmsi'']"
    unfolding processKmsiInterrupt_def unmarshalEmbeddedJson_marker_present[OF i] k
    by (simp add: f u Do_def Let_def empty_session_def DisableFollowRedirect_def
        EnableFollowRedirect_def split: sum.splits del: Values_Set.simps)
  from a b ck cg c d g show ?thesis by blast
qed

section \<open>The redirect switch around the KMSI POST\<close>

lemma processKmsiInterrupt_switch:
  "follow_redirect (snd (processKmsiInterrupt e res srcBodyStr s)) =
     (case unmarshalEmbeddedJson e srcBodyStr of
        Ok (Some c) \<Rightarrow>
          if \<not> urlParses e (fullUrl res (URLPost c)) then follow_redirect s
          else (case fst (Do e \<lparr>ReqMethod = ''POST'', ReqURL = fullUrl res (URLPost c),
                        ReqHeader = [(''Content-Type'', ''application/x-www-form-urlencoded'')],
                        ReqBody = FormBody (Values_Set (Values_Set (Values_Set [] (SFTName c) (SFT c))
                          ''ctx'' (SCtx c)) ''LoginOptions'' ''1'')\<rparr> (DisableFollowRedirect s)) of
                  Inl msg \<Rightarrow> False
                | Inr res' \<Rightarrow> True)
      | _ \<Rightarrow> follow_redirect s)"
  by (simp add: processKmsiInterrupt_def Let_def Do_def DisableFollowRedirect_def
      EnableFollowRedirect_def split: result.splits option.splits sum.splits
      del: Values_Set.simps)

text \<open>
  Claim C1, on the code. When the POST to \<open>url_post\<close> fails in the transport, the
  handler returns from line 404, before the \<open>EnableFollowRedirect\<close> of line 406: the
  session that followed redirects before the call does not follow them after it.
\<close>

theorem processKmsiInterrupt_transport_error_leaves_switch_off:
  "follow_redirect empty_session
   \<and> fst (processKmsiInterrupt dropping_env (page kmsi_body) kmsi_body empty_session)
       = Err (Wrap (TransportError ''connection reset'') ''error retrieving KMSI results'')
   \<and> \<not> follow_redirect (snd (processKmsiInterrupt dropping_env (page kmsi_body) kmsi_body
          empty_session))"
proof -
  have i: "first_occurrence kmsi_body ''$Config='' = Some 24"
    by (simp add: kmsi_body_def)
  have k: "decodeConverged dropping_env (drop (24 + 8) kmsi_body) = Decoded kmsi_config"
    by (simp add: dropping_env_def closed_env_def kmsi_decoder_def kmsi_body_def HasPrefix_iff)
  have u: "urlParses dropping_env = (\<lambda>u. True)"
    by (simp add: dropping_env_def closed_env_def)
  have r: "roundTrip dropping_env = (\<lambda>s req. Inl ''connection reset'')"
    by (simp add: dropping_env_def closed_env_def)
  show ?thesis
    unfolding processKmsiInterrupt_def unmarshalEmbeddedJson_marker_present[OF i] k
    by (simp add: u r Do_def Let_def empty_session_def DisableFollowRedirect_def
        split: sum.splits del: Values_Set.simps)
qed

section \<open>The poll loop chains its tokens\<close>

lemma processMfaEndAuth_cases:
  "processMfaEndAuth e m c s =
     (if \<not> urlParses e (URLEndAuth c)
      then (Err (Wrap RequestError ''error building MFA EndAuth request''), s)
      else
        (let req = \<lparr>ReqMethod = ''POST'', ReqURL = URLEndAuth c,
                ReqHeader = [(''Content-Type'', ''application/json'')], ReqBody = MfaJson m\<rparr>;
             s' = s\<lparr>exchanges := exchanges s @ [(req, roundTrip e s req)]\<rparr>
         in (case roundTrip e s req of
               Inl msg \<Rightarrow> (Err (Wrap (TransportError msg) ''error retrieving MFA EndAuth results''), s')
             | Inr res \<Rightarrow>
                 (case decodeMfa e (Body res) of
                    None \<Rightarrow> (Err (Wrap JsonError ''error decoding MFA EndAuth results''), s')
                  | Some r \<Rightarrow> (Ok r, s')))))"
  by (simp add: processMfaEndAuth_def Do_def Let_def split: sum.splits)

lemma processMfaEndAuth_trace:
  assumes "processMfaEndAuth e m c s = (out, s')"
  shows "(exchanges s' = exchanges s \<and> (\<exists>x. out = Err x))
         \<or> (\<exists>req reply. exchanges s' = exchanges s @ [(req, reply)]
              \<and> ReqBody req = MfaJson m
              \<and> (case out of
                    Ok r \<Rightarrow> (\<exists>res. reply = Inr res \<and> decodeMfa e (Body res) = Some r)
                  | Err x \<Rightarrow> (case reply of Inl msg \<Rightarrow> True
                                | Inr res \<Rightarrow> decodeMfa e (Body res) = None)
                  | Panic p \<Rightarrow> False))"
proof (cases "urlParses e (URLEndAuth c)")
  case False
  with assms show ?thesis by (auto simp: processMfaEndAuth_cases)
next
  case True
  let ?req = "\<lparr>ReqMethod = ''POST'', ReqURL = URLEndAuth c,
                ReqHeader = [(''Content-Type'', ''application/json'')], ReqBody = MfaJson m\<rparr>"
  let ?s' = "s\<lparr>exchanges := exchanges s @ [(?req, roundTrip e s ?req)]\<rparr>"
  have b: "ReqBody ?req = MfaJson m" by simp
  show ?thesis
  proof (cases "roundTrip e s ?req")
    case (Inl msg)
    with assms True have "out = Err (Wrap (TransportError msg) ''error retrieving MFA EndAuth results'')"
        "s' = ?s'"
      by (simp_all add: processMfaEndAuth_cases Let_def)
    with Inl have "exchanges s' = exchanges s @ [(?req, Inl msg)] \<and> ReqBody ?req = MfaJson m
              \<and> (case out of
                    Ok r \<Rightarrow> (\<exists>res. (Inl msg :: string + response) = Inr res \<and> decodeMfa e (Body res) = Some r)
                  | Err x \<Rightarrow> (case (Inl msg :: string + response) of Inl msg \<Rightarrow> True
                                | Inr res \<Rightarrow> decodeMfa e (Body res) = None)
                  | Panic p \<Rightarrow> False)"
      by simp
    then show ?thesis by blast
  next
    case (Inr res)
    show ?thesis
    proof (cases "decodeMfa e (Body res)")
      case None
      with assms True Inr have "out = Err (Wrap JsonError ''error decoding MFA EndAuth results'')"
          "s' = ?s'"
        by (simp_all add: processMfaEndAuth_cases Let_def)
      with Inr None have "exchanges s' = exchanges s @ [(?req, Inr res)] \<and> ReqBody ?req = MfaJson m
              \<and> (case out of
                    Ok r \<Rightarrow> (\<exists>res'. (Inr res :: string + response) = Inr res' \<and> decodeMfa e (Body res') = Some r)
                  | Err x \<Rightarrow> (case (Inr res :: string + response) of Inl msg \<Rightarrow> True
                                | Inr res \<Rightarrow> decodeMfa e (Body res) = None)
                  | Panic p \<Rightarrow> False)"
        by simp
      then show ?thesis by blast
    next
      case (Some r)
      with assms True Inr have "out = Ok r" "s' = ?s'"
        by (simp_all add: processMfaEndAuth_cases Let_def)
      with Inr Some have "exchanges s' = exchanges s @ [(?req, Inr res)] \<and> ReqBody ?req = MfaJson m
              \<and> (case out of
                    Ok r \<Rightarrow> (\<exists>res'. (Inr res :: string + response) = Inr res' \<and> decodeMfa e (Body res') = Some r)
                  | Err x \<Rightarrow> (case (Inr res :: string + response) of Inl msg \<Rightarrow> True
                                | Inr res \<Rightarrow> decodeMfa e (Body res) = None)
                  | Panic p \<Rightarrow> False)"
        by simp
      then show ?thesis by blast
    qed
  qed
qed

lemma exchanges_notices_update [simp]: "exchanges (s\<lparr>notices := n\<rparr>) = exchanges s"
  by simp

lemma pollTurn_trace:
  assumes "pollTurn e c ld i r s = (l, s')"
  shows "(exchanges s' = exchanges s \<and> (\<exists>x. l = Exit (Err x)))
         \<or> (\<exists>req reply. exchanges s' = exchanges s @ [(req, reply)]
              \<and> sentTriple req = Some (receivedTriple r)
              \<and> (case l of
                    Continue r' \<Rightarrow> (\<exists>res. reply = Inr res \<and> decodeMfa e (Body res) = Some r')
                  | Exit (Ok r') \<Rightarrow> (\<exists>res. reply = Inr res \<and> decodeMfa e (Body res) = Some r')
                  | Exit (Err x) \<Rightarrow>
                      (case reply of Inl msg \<Rightarrow> True
                       | Inr res \<Rightarrow> decodeMfa e (Body res) = None
                                    \<or> (\<exists>r'. decodeMfa e (Body res) = Some r' \<and> ErrCode r' \<noteq> 0))
                  | Exit (Panic p) \<Rightarrow> False))"
proof -
  define m0 where "m0 = \<lparr>mfa_AuthMethodID = resp_AuthMethodID r, mfa_Method = ''EndAuth'',
            mfa_Ctx = resp_Ctx r, mfa_FlowToken = resp_FlowToken r,
            mfa_SessionID = resp_SessionID r, AdditionalAuthData = []\<rparr>"
  define m where "m = (if mfa_AuthMethodID m0 = ''PhoneAppOTP'' \<or> mfa_AuthMethodID m0 = ''OneWaySMS''
             then m0\<lparr>AdditionalAuthData :=
                    (if MFAToken ld = [] then StringRequired e ''Enter verification code''
                     else MFAToken ld)\<rparr>
             else m0)"
  define s0 where "s0 = (if mfa_AuthMethodID m = ''PhoneAppNotification'' \<and> i = 0
             then s\<lparr>notices := notices s @
                    [if Entropy r = 0 then PhoneApprovalRequired
                     else PhoneApprovalEntropy (Entropy r)]\<rparr>
             else s)"
  have t: "mfa_Method m = ''EndAuth'' \<and> (mfa_Ctx m, mfa_FlowToken m, mfa_SessionID m) = receivedTriple r"
    by (simp add: m_def m0_def receivedTriple_def)
  have x0: "exchanges s0 = exchanges s" by (simp add: s0_def)
  obtain out s1 where p: "processMfaEndAuth e m c s0 = (out, s1)" by (cases "processMfaEndAuth e m c s0")
  have turn: "pollTurn e c ld i r s =
      (case (out, s1) of
           (Panic p, s') \<Rightarrow> (Exit (Panic p), s')
         | (Err x, s') \<Rightarrow> (Exit (Err (Wrap x ''error processing MFA EndAuth'')), s')
         | (Ok mfaResp', s') \<Rightarrow>
             if ErrCode mfaResp' \<noteq> 0
             then (Exit (Err (MfaError (ErrCode mfaResp') (Message mfaResp'))), s')
             else if Success mfaResp' then (Exit (Ok mfaResp'), s')
             else if \<not> Retry mfaResp' then (Exit (Ok mfaResp'), s')
             else (Continue mfaResp', s'))"
    unfolding pollTurn_def Let_def m0_def[symmetric] m_def[symmetric] s0_def[symmetric] p ..
  from processMfaEndAuth_trace[OF p] show ?thesis
  proof
    assume "exchanges s1 = exchanges s0 \<and> (\<exists>x. out = Err x)"
    with assms turn x0 show ?thesis by auto
  next
    assume "\<exists>req reply. exchanges s1 = exchanges s0 @ [(req, reply)]
              \<and> ReqBody req = MfaJson m
              \<and> (case out of
                    Ok r \<Rightarrow> (\<exists>res. reply = Inr res \<and> decodeMfa e (Body res) = Some r)
                  | Err x \<Rightarrow> (case reply of Inl msg \<Rightarrow> True
                                | Inr res \<Rightarrow> decodeMfa e (Body res) = None)
                  | Panic p \<Rightarrow> False)"
    then obtain req reply where q: "exchanges s1 = exchanges s0 @ [(req, reply)]"
        "ReqBody req = MfaJson m"
        "(case out of
                    Ok r \<Rightarrow> (\<exists>res. reply = Inr res \<and> decodeMfa e (Body res) = Some r)
                  | Err x \<Rightarrow> (case reply of Inl msg \<Rightarrow> True
                                | Inr res \<Rightarrow> decodeMfa e (Body res) = None)
                  | Panic p \<Rightarrow> False)"
      by blast
    from q(2) t have st: "sentTriple req = Some (receivedTriple r)"
      by (simp add: sentTriple_def)
    have "exchanges s' = exchanges s @ [(req, reply)]
              \<and> sentTriple req = Some (receivedTriple r)
              \<and> (case l of
                    Continue r' \<Rightarrow> (\<exists>res. reply = Inr res \<and> decodeMfa e (Body res) = Some r')
                  | Exit (Ok r') \<Rightarrow> (\<exists>res. reply = Inr res \<and> decodeMfa e (Body res) = Some r')
                  | Exit (Err x) \<Rightarrow>
                      (case reply of Inl msg \<Rightarrow> True
                       | Inr res \<Rightarrow> decodeMfa e (Body res) = None
                                    \<or> (\<exists>r'. decodeMfa e (Body res) = Some r' \<and> ErrCode r' \<noteq> 0))
                  | Exit (Panic p) \<Rightarrow> False)"
      using assms turn q(1,3) st x0
      by (cases out) (auto split: if_splits sum.splits)
    then show ?thesis by blast
  qed
qed

lemma pollLoop_chained:
  assumes "pollLoop e c ld i r s = Some y"
  shows "\<exists>ex. exchanges (snd y) = exchanges s @ ex \<and> chained e r ex"
proof (rule pollLoop.raw_induct[where P = "\<lambda>e c ld i r s y.
         \<exists>ex. exchanges (snd y) = exchanges s @ ex \<and> chained e r ex", OF _ assms])
  fix f e c ld i r s y
  assume IH: "\<And>e c ld i r s y. f e c ld i r s = Some y \<Longrightarrow>
                \<exists>ex. exchanges (snd y) = exchanges s @ ex \<and> chained e r ex"
    and step: "(case pollTurn e c ld i r s of
                  (Continue mfaResp', s') \<Rightarrow> f e c ld (i + 1) mfaResp' s'
                | (Exit r, s') \<Rightarrow> Some (r, s')) = Some y"
  obtain l s1 where t: "pollTurn e c ld i r s = (l, s1)" by (cases "pollTurn e c ld i r s")
  show "\<exists>ex. exchanges (snd y) = exchanges s @ ex \<and> chained e r ex"
  proof (cases l)
    case (Exit out)
    with step t have y: "y = (out, s1)" by simp
    from pollTurn_trace[OF t] show ?thesis
    proof
      assume "exchanges s1 = exchanges s \<and> (\<exists>x. l = Exit (Err x))"
      then have "exchanges (snd y) = exchanges s @ [] \<and> chained e r []" by (simp add: y)
      then show ?thesis by blast
    next
      assume "\<exists>req reply. exchanges s1 = exchanges s @ [(req, reply)]
              \<and> sentTriple req = Some (receivedTriple r)
              \<and> (case l of
                    Continue r' \<Rightarrow> (\<exists>res. reply = Inr res \<and> decodeMfa e (Body res) = Some r')
                  | Exit (Ok r') \<Rightarrow> (\<exists>res. reply = Inr res \<and> decodeMfa e (Body res) = Some r')
                  | Exit (Err x) \<Rightarrow>
                      (case reply of Inl msg \<Rightarrow> True
                       | Inr res \<Rightarrow> decodeMfa e (Body res) = None
                                    \<or> (\<exists>r'. decodeMfa e (Body res) = Some r' \<and> ErrCode r' \<noteq> 0))
                  | Exit (Panic p) \<Rightarrow> False)"
      then obtain req reply where q: "exchanges s1 = exchanges s @ [(req, reply)]"
          "sentTriple req = Some (receivedTriple r)" by blast
      have "chained e r [(req, reply)]"
        using q(2) by (simp split: sum.splits option.splits)
      with q(1) have "exchanges (snd y) = exchanges s @ [(req, reply)] \<and> chained e r [(req, reply)]"
        by (simp add: y)
      then show ?thesis by blast
    qed
  next
    case (Continue r')
    with step t have rec: "f e c ld (i + 1) r' s1 = Some y" by simp
    from IH[OF rec] obtain ex where ex: "exchanges (snd y) = exchanges s1 @ ex" "chained e r' ex"
      by blast
    from pollTurn_trace[OF t] Continue obtain req res where
      q: "exchanges s1 = exchanges s @ [(req, Inr res)]" "sentTriple req = Some (receivedTriple r)"
         "decodeMfa e (Body res) = Some r'"
      by auto
    have "chained e r ((req, Inr res) # ex)" using q(2,3) ex(2) by simp
    moreover have "exchanges (snd y) = exchanges s @ ((req, Inr res) # ex)"
      using ex(1) q(1) by simp
    ultimately show ?thesis by blast
  qed
qed


lemma chained_first:
  "chained e r ex \<Longrightarrow> ex \<noteq> [] \<Longrightarrow> sentTriple (fst (ex ! 0)) = Some (receivedTriple r)"
  by (cases ex) auto

lemma chained_next:
  "chained e r ex \<Longrightarrow> Suc k < length ex \<Longrightarrow>
     \<exists>res r'. snd (ex ! k) = Inr res \<and> decodeMfa e (Body res) = Some r'
       \<and> sentTriple (fst (ex ! Suc k)) = Some (receivedTriple r')"
proof (induction k arbitrary: r ex)
  case 0
  then obtain req reply req' reply' rest where ex: "ex = (req, reply) # (req', reply') # rest"
    by (cases ex; cases "tl ex") auto
  with 0(1) show ?case by (auto split: sum.splits option.splits)
next
  case (Suc k)
  then obtain req reply rest where ex: "ex = (req, reply) # rest" "Suc k < length rest"
    by (cases ex) auto
  then have "rest \<noteq> []" by auto
  with Suc.prems(1) ex(1) obtain res r' where
    r: "reply = Inr res" "decodeMfa e (Body res) = Some r'" "chained e r' rest"
    by (auto split: sum.splits option.splits)
  from Suc.IH[OF r(3) ex(2)] show ?case by (simp add: ex(1))
qed

lemma processMfaBeginAuth_Ok:
  assumes "processMfaBeginAuth e acct mfas c s = (Ok r0, s1)"
  shows "mfas \<noteq> [] \<and> (\<exists>req res. exchanges s1 = exchanges s @ [(req, Inr res)]
           \<and> decodeMfa e (Body res) = Some r0)"
  using assms
  by (auto simp: processMfaBeginAuth_def selectMfa_def Do_def Let_def
      split: list.splits result.splits if_splits sum.splits option.splits)

lemma processMfaAuth_trace:
  assumes "processMfaAuth e r c s = (out, s')"
  shows "\<exists>fin. exchanges s' = exchanges s @ fin \<and> length fin \<le> 1
           \<and> (\<forall>x \<in> set fin. sentTriple (fst x) = None)"
proof (cases "urlParses e (URLPost c)")
  case False
  with assms have "exchanges s' = exchanges s @ []"
    by (auto simp: processMfaAuth_def Let_def simp del: Values_Set.simps)
  then show ?thesis by (metis empty_iff le0 list.set(1) list.size(3))
next
  case True
  with assms have "\<exists>req reply. exchanges s' = exchanges s @ [(req, reply)]
      \<and> (\<exists>f. ReqBody req = FormBody f)"
    by (auto simp: processMfaAuth_def Do_def Let_def simp del: Values_Set.simps split: sum.splits)
  then obtain req reply f where q: "exchanges s' = exchanges s @ [(req, reply)]" "ReqBody req = FormBody f"
    by blast
  then have "length [(req, reply)] \<le> 1 \<and> (\<forall>x \<in> set [(req, reply)]. sentTriple (fst x) = None)"
    by (simp add: sentTriple_def)
  with q(1) show ?thesis by blast
qed

lemma processMfa_trace:
  assumes b: "processMfaBeginAuth e acct mfas c s = (Ok r0, s1)"
    and m: "processMfa e acct mfas c ld s = Some (out, s2)"
  shows "\<exists>ex fin. exchanges s2 = exchanges s1 @ ex @ fin \<and> chained e r0 ex \<and> length fin \<le> 1
           \<and> (\<forall>x \<in> set fin. sentTriple (fst x) = None)"
proof -
  from processMfaBeginAuth_Ok[OF b] have ne: "length mfas \<noteq> 0" by simp
  from m ne b obtain y where y: "pollLoop e c ld 0 r0 s1 = Some y"
    by (cases "pollLoop e c ld 0 r0 s1") (auto simp: processMfa_def)
  obtain pr sp where ysp: "y = (pr, sp)" by (cases y)
  from pollLoop_chained[OF y] ysp obtain ex where
    ex: "exchanges sp = exchanges s1 @ ex" "chained e r0 ex" by auto
  have m': "Some (out, s2) =
              (case pr of
                 Panic p \<Rightarrow> Some (Panic p, sp)
               | Err x \<Rightarrow> Some (Err x, sp)
               | Ok mfaResp \<Rightarrow>
                  if \<not> Success mfaResp then Some (Err (Errorf ''error processing MFA''), sp)
                  else
                    (case processMfaAuth e mfaResp c sp of
                       (Panic p, s3) \<Rightarrow> Some (Panic p, s3)
                     | (Err x, s3) \<Rightarrow> Some (Err (Wrap x ''error processing MFA ProcessAuth''), s3)
                     | (Ok res, s3) \<Rightarrow> Some (Ok res, s3)))"
    using m ne b y ysp by (simp add: processMfa_def split: result.splits)
  have "\<exists>fin. exchanges s2 = exchanges sp @ fin \<and> length fin \<le> 1
           \<and> (\<forall>x \<in> set fin. sentTriple (fst x) = None)"
  proof (cases "\<exists>r. pr = Ok r \<and> Success r")
    case False
    with m' have "s2 = sp" by (cases pr) (auto split: if_splits)
    then have "exchanges s2 = exchanges sp @ []" by simp
    then show ?thesis by (metis empty_iff le0 list.set(1) list.size(3))
  next
    case True
    then obtain r where r: "pr = Ok r" "Success r" by blast
    obtain o3 s3 where a: "processMfaAuth e r c sp = (o3, s3)" by (cases "processMfaAuth e r c sp")
    with m' r have "s2 = s3" by (cases o3) auto
    with processMfaAuth_trace[OF a] show ?thesis by simp
  qed
  with ex show ?thesis by auto
qed

text \<open>
  Claim C8. In every run of the poll loop that returns, whether by a \<open>break\<close> or with
  an error, the exchanges it made are EndAuth requests of which the first carries the
  triple (Ctx, FlowToken, SessionId) of the response the loop was started from, and each
  later one the triple decoded from the response of the exchange just before it.
  \<open>processMfa\<close> starts the loop from the response decoded from the BeginAuth exchange,
  and after the loop makes at most one more request, the finalising POST, which is no
  EndAuth request.
\<close>

theorem pollLoop_tokens_chained:
  "(pollLoop e c ld i r0 s = Some (out, s') \<longrightarrow>
      (\<exists>ex. exchanges s' = exchanges s @ ex
         \<and> (ex \<noteq> [] \<longrightarrow> sentTriple (fst (ex ! 0)) = Some (receivedTriple r0))
         \<and> (\<forall>k. Suc k < length ex \<longrightarrow>
              (\<exists>res r'. snd (ex ! k) = Inr res \<and> decodeMfa e (Body res) = Some r'
                 \<and> sentTriple (fst (ex ! Suc k)) = Some (receivedTriple r')))))
   \<and> (processMfaBeginAuth e acct mfas c s = (Ok r0, s1)
        \<and> processMfa e acct mfas c ld s = Some (out', s2) \<longrightarrow>
      (\<exists>req res. exchanges s1 = exchanges s @ [(req, Inr res)]
         \<and> decodeMfa e (Body res) = Some r0)
      \<and> (\<exists>ex fin. exchanges s2 = exchanges s1 @ ex @ fin
         \<and> (ex \<noteq> [] \<longrightarrow> sentTriple (fst (ex ! 0)) = Some (receivedTriple r0))
         \<and> (\<forall>k. Suc k < length ex \<longrightarrow>
              (\<exists>res r'. snd (ex ! k) = Inr res \<and> decodeMfa e (Body res) = Some r'
                 \<and> sentTriple (fst (ex ! Suc k)) = Some (receivedTriple r')))
         \<and> length fin \<le> 1 \<and> (\<forall>x \<in> set fin. sentTriple (fst x) = None)))"
proof (intro conjI impI)
  assume "pollLoop e c ld i r0 s = Some (out, s')"
  from pollLoop_chained[OF this] obtain ex where
    "exchanges s' = exchanges s @ ex" "chained e r0 ex" by auto
  then show "\<exists>ex. exchanges s' = exchanges s @ ex
         \<and> (ex \<noteq> [] \<longrightarrow> sentTriple (fst (ex ! 0)) = Some (receivedTriple r0))
         \<and> (\<forall>k. Suc k < length ex \<longrightarrow>
              (\<exists>res r'. snd (ex ! k) = Inr res \<and> decodeMfa e (Body res) = Some r'
                 \<and> sentTriple (fst (ex ! Suc k)) = Some (receivedTriple r')))"
    using chained_first chained_next by blast
next
  assume a: "processMfaBeginAuth e acct mfas c s = (Ok r0, s1)
        \<and> processMfa e acct mfas c ld s = Some (out', s2)"
  then show "\<exists>req res. exchanges s1 = exchanges s @ [(req, Inr res)]
         \<and> decodeMfa e (Body res) = Some r0"
    using processMfaBeginAuth_Ok by blast
next
  assume a: "processMfaBeginAuth e acct mfas c s = (Ok r0, s1)
        \<and> processMfa e acct mfas c ld s = Some (out', s2)"
  then obtain ex fin where "exchanges s2 = exchanges s1 @ ex @ fin" "chained e r0 ex"
      "length fin \<le> 1" "\<forall>x \<in> set fin. sentTriple (fst x) = None"
    using processMfa_trace by blast
  then show "\<exists>ex fin. exchanges s2 = exchanges s1 @ ex @ fin
         \<and> (ex \<noteq> [] \<longrightarrow> sentTriple (fst (ex ! 0)) = Some (receivedTriple r0))
         \<and> (\<forall>k. Suc k < length ex \<longrightarrow>
              (\<exists>res r'. snd (ex ! k) = Inr res \<and> decodeMfa e (Body res) = Some r'
                 \<and> sentTriple (fst (ex ! Suc k)) = Some (receivedTriple r')))
         \<and> length fin \<le> 1 \<and> (\<forall>x \<in> set fin. sentTriple (fst x) = None)"
    using chained_first chained_next by blast
qed

lemma polling_env_simps:
  "urlParses polling_env = (\<lambda>u. True)"
  "decodeMfa polling_env = mfa_decoder"
  "roundTrip polling_env = (\<lambda>s req.
        if length (exchanges s) = 0 then Inr (page ''begun'')
        else if length (exchanges s) = 1 then Inr (page ''pending'')
        else if length (exchanges s) = 2 then Inr (page ''approved'')
        else Inr (page []))"
  "StringRequired polling_env = (\<lambda>p. ''000000'')"
  by (simp_all add: polling_env_def closed_env_def)

lemma mfa_decoder_simps:
  "mfa_decoder (Body (page ''begun'')) = Some mfa_begun"
  "mfa_decoder (Body (page ''pending'')) = Some mfa_pending"
  "mfa_decoder (Body (page ''approved'')) = Some mfa_approved"
  by (simp_all add: mfa_decoder_def page_def)

lemma poll_config_simps:
  "URLEndAuth poll_config = ''https://login.microsoftonline.com/common/SAS/EndAuth''"
  "URLBeginAuth poll_config = ''https://login.microsoftonline.com/common/SAS/BeginAuth''"
  "URLPost poll_config = ''https://login.microsoftonline.com/common/SAS/ProcessAuth''"
  by (simp_all add: poll_config_def zero_config_def)

lemma begin_run:
  "fst (processMfaBeginAuth polling_env push_account three_proofs poll_config empty_session)
     = Ok mfa_begun"
  "length (exchanges (snd (processMfaBeginAuth polling_env push_account three_proofs poll_config
     empty_session))) = 1"
  by (simp_all add: processMfaBeginAuth_def selectMfa_def three_proofs_def push_account_def
      polling_env_simps mfa_decoder_simps poll_config_simps Do_def Let_def empty_session_def
      mfa_begun_def)



lemma pollTurn_answered:
  assumes u: "urlParses e (URLEndAuth c)"
    and rt: "\<And>s0 req. exchanges s0 = exchanges s \<Longrightarrow> roundTrip e s0 req = Inr res"
    and d: "decodeMfa e (Body res) = Some r'"
    and z: "ErrCode r' = 0"
  shows "fst (pollTurn e c ld i r s)
           = (if Success r' \<or> \<not> Retry r' then Exit (Ok r') else Continue r')"
    and "length (exchanges (snd (pollTurn e c ld i r s))) = Suc (length (exchanges s))"
proof -
  define m0 where "m0 = \<lparr>mfa_AuthMethodID = resp_AuthMethodID r, mfa_Method = ''EndAuth'',
            mfa_Ctx = resp_Ctx r, mfa_FlowToken = resp_FlowToken r,
            mfa_SessionID = resp_SessionID r, AdditionalAuthData = []\<rparr>"
  define m where "m = (if mfa_AuthMethodID m0 = ''PhoneAppOTP'' \<or> mfa_AuthMethodID m0 = ''OneWaySMS''
             then m0\<lparr>AdditionalAuthData :=
                    (if MFAToken ld = [] then StringRequired e ''Enter verification code''
                     else MFAToken ld)\<rparr>
             else m0)"
  define s0 where "s0 = (if mfa_AuthMethodID m = ''PhoneAppNotification'' \<and> i = 0
             then s\<lparr>notices := notices s @
                    [if Entropy r = 0 then PhoneApprovalRequired
                     else PhoneApprovalEntropy (Entropy r)]\<rparr>
             else s)"
  have x0: "exchanges s0 = exchanges s" by (simp add: s0_def)
  define req where "req = \<lparr>ReqMethod = ''POST'', ReqURL = URLEndAuth c,
                ReqHeader = [(''Content-Type'', ''application/json'')], ReqBody = MfaJson m\<rparr>"
  have p: "processMfaEndAuth e m c s0 = (Ok r', s0\<lparr>exchanges := exchanges s0 @ [(req, Inr res)]\<rparr>)"
    unfolding processMfaEndAuth_cases Let_def req_def[symmetric]
    by (simp add: u rt[OF x0] d)
  have turn: "pollTurn e c ld i r s =
      (case processMfaEndAuth e m c s0 of
           (Panic p, s') \<Rightarrow> (Exit (Panic p), s')
         | (Err x, s') \<Rightarrow> (Exit (Err (Wrap x ''error processing MFA EndAuth'')), s')
         | (Ok mfaResp', s') \<Rightarrow>
             if ErrCode mfaResp' \<noteq> 0
             then (Exit (Err (MfaError (ErrCode mfaResp') (Message mfaResp'))), s')
             else if Success mfaResp' then (Exit (Ok mfaResp'), s')
             else if \<not> Retry mfaResp' then (Exit (Ok mfaResp'), s')
             else (Continue mfaResp', s'))"
    unfolding pollTurn_def Let_def m0_def[symmetric] m_def[symmetric] s0_def[symmetric] ..
  show "fst (pollTurn e c ld i r s)
           = (if Success r' \<or> \<not> Retry r' then Exit (Ok r') else Continue r')"
    unfolding turn p by (simp add: z)
  show "length (exchanges (snd (pollTurn e c ld i r s))) = Suc (length (exchanges s))"
    unfolding turn p by (simp add: z x0)
qed

lemma polling_roundTrip:
  "length (exchanges s) = 1 \<Longrightarrow> roundTrip polling_env s req = Inr (page ''pending'')"
  "length (exchanges s) = 2 \<Longrightarrow> roundTrip polling_env s req = Inr (page ''approved'')"
  by (auto simp add: polling_env_simps)

lemma mfa_flags:
  "ErrCode mfa_pending = 0" "\<not> Success mfa_pending" "Retry mfa_pending"
  "ErrCode mfa_approved = 0" "Success mfa_approved"
  by (simp_all add: mfa_pending_def mfa_approved_def)

lemma turn_pending:
  assumes "length (exchanges s) = 1"
  shows "fst (pollTurn polling_env poll_config alice i mfa_begun s) = Continue mfa_pending"
    "length (exchanges (snd (pollTurn polling_env poll_config alice i mfa_begun s))) = 2"
proof -
  have u: "urlParses polling_env (URLEndAuth poll_config)" by (simp add: polling_env_simps)
  have rt: "\<And>s0 req. exchanges s0 = exchanges s \<Longrightarrow>
              roundTrip polling_env s0 req = Inr (page ''pending'')"
    using assms polling_roundTrip(1) by simp
  have d: "decodeMfa polling_env (Body (page ''pending'')) = Some mfa_pending"
    by (simp add: polling_env_simps mfa_decoder_simps)
  show "fst (pollTurn polling_env poll_config alice i mfa_begun s) = Continue mfa_pending"
    using pollTurn_answered(1)[OF u rt d mfa_flags(1)] mfa_flags by simp
  show "length (exchanges (snd (pollTurn polling_env poll_config alice i mfa_begun s))) = 2"
    using pollTurn_answered(2)[OF u rt d mfa_flags(1)] assms by simp
qed

lemma turn_approved:
  assumes "length (exchanges s) = 2"
  shows "fst (pollTurn polling_env poll_config alice i mfa_pending s) = Exit (Ok mfa_approved)"
    "length (exchanges (snd (pollTurn polling_env poll_config alice i mfa_pending s))) = 3"
proof -
  have u: "urlParses polling_env (URLEndAuth poll_config)" by (simp add: polling_env_simps)
  have rt: "\<And>s0 req. exchanges s0 = exchanges s \<Longrightarrow>
              roundTrip polling_env s0 req = Inr (page ''approved'')"
    using assms polling_roundTrip(2) by simp
  have d: "decodeMfa polling_env (Body (page ''approved'')) = Some mfa_approved"
    by (simp add: polling_env_simps mfa_decoder_simps)
  show "fst (pollTurn polling_env poll_config alice i mfa_pending s) = Exit (Ok mfa_approved)"
    using pollTurn_answered(1)[OF u rt d mfa_flags(4)] mfa_flags by simp
  show "length (exchanges (snd (pollTurn polling_env poll_config alice i mfa_pending s))) = 3"
    using pollTurn_answered(2)[OF u rt d mfa_flags(4)] assms by simp
qed

lemma poll_run:
  assumes "length (exchanges s) = 1"
  shows "\<exists>s3. pollLoop polling_env poll_config alice 0 mfa_begun s = Some (Ok mfa_approved, s3)"
proof -
  define s2 where "s2 = snd (pollTurn polling_env poll_config alice 0 mfa_begun s)"
  have t0: "pollTurn polling_env poll_config alice 0 mfa_begun s = (Continue mfa_pending, s2)"
    using turn_pending(1)[OF assms, of 0] by (simp add: s2_def prod_eq_iff)
  have l2: "length (exchanges s2) = 2"
    using turn_pending(2)[OF assms, of 0] by (simp add: s2_def)
  define s3 where "s3 = snd (pollTurn polling_env poll_config alice (0 + 1) mfa_pending s2)"
  have t1: "pollTurn polling_env poll_config alice (0 + 1) mfa_pending s2
              = (Exit (Ok mfa_approved), s3)"
    using turn_approved(1)[OF l2, of "0 + 1"] by (simp add: s3_def prod_eq_iff)
  have "pollLoop polling_env poll_config alice 0 mfa_begun s
          = pollLoop polling_env poll_config alice (0 + 1) mfa_pending s2"
    by (subst pollLoop.simps) (simp only: t0 prod.case loop.case)
  also have "\<dots> = Some (Ok mfa_approved, s3)"
    by (subst pollLoop.simps) (simp only: t1 prod.case loop.case)
  finally show ?thesis by (rule exI)
qed

theorem pollLoop_tokens_chained_witness:
  "fst (processMfaBeginAuth polling_env push_account three_proofs poll_config empty_session)
     = Ok mfa_begun
   \<and> (\<exists>s1 s2.
        processMfaBeginAuth polling_env push_account three_proofs poll_config empty_session
          = (Ok mfa_begun, s1)
        \<and> pollLoop polling_env poll_config alice 0 mfa_begun s1 = Some (Ok mfa_approved, s2)
        \<and> (\<exists>ex. exchanges s2 = exchanges s1 @ ex
             \<and> (ex \<noteq> [] \<longrightarrow> sentTriple (fst (ex ! 0)) = Some (receivedTriple mfa_begun))
             \<and> (\<forall>k. Suc k < length ex \<longrightarrow>
                  (\<exists>res r'. snd (ex ! k) = Inr res \<and> decodeMfa polling_env (Body res) = Some r'
                     \<and> sentTriple (fst (ex ! Suc k)) = Some (receivedTriple r')))))
   \<and> (\<exists>s1 out s2.
        processMfaBeginAuth polling_env push_account three_proofs poll_config empty_session
          = (Ok mfa_begun, s1)
        \<and> processMfa polling_env push_account three_proofs poll_config alice empty_session
          = Some (out, s2)
        \<and> (\<exists>ex fin. exchanges s2 = exchanges s1 @ ex @ fin
             \<and> (ex \<noteq> [] \<longrightarrow> sentTriple (fst (ex ! 0)) = Some (receivedTriple mfa_begun))
             \<and> (\<forall>k. Suc k < length ex \<longrightarrow>
                  (\<exists>res r'. snd (ex ! k) = Inr res \<and> decodeMfa polling_env (Body res) = Some r'
                     \<and> sentTriple (fst (ex ! Suc k)) = Some (receivedTriple r')))
             \<and> length fin \<le> 1 \<and> (\<forall>x \<in> set fin. sentTriple (fst x) = None)))"
proof -
  obtain s1 where b: "processMfaBeginAuth polling_env push_account three_proofs poll_config
      empty_session = (Ok mfa_begun, s1)"
    using begin_run(1)
    by (cases "processMfaBeginAuth polling_env push_account three_proofs poll_config empty_session")
      auto
  have l1: "length (exchanges s1) = 1" using begin_run(2) b by simp
  obtain s2 where p: "pollLoop polling_env poll_config alice 0 mfa_begun s1
      = Some (Ok mfa_approved, s2)"
    using poll_run[OF l1] by blast
  obtain o3 s3 where f: "processMfaAuth polling_env mfa_approved poll_config s2 = (o3, s3)"
    by (cases "processMfaAuth polling_env mfa_approved poll_config s2")
  have ne: "length three_proofs \<noteq> 0" by (simp add: three_proofs_def)
  have su: "Success mfa_approved" by (simp add: mfa_approved_def)
  have "\<exists>out. processMfa polling_env push_account three_proofs poll_config alice empty_session
      = Some (out, s3)"
    using ne su by (cases o3) (simp_all add: processMfa_def b p f)
  then obtain out where m: "processMfa polling_env push_account three_proofs poll_config alice
      empty_session = Some (out, s3)"
    by blast
  note inst = pollLoop_tokens_chained[where e = polling_env and c = poll_config and ld = alice
      and i = 0 and ?r0.0 = mfa_begun and s = s1 and out = "Ok mfa_approved" and s' = s2]
  note inst' = pollLoop_tokens_chained[where e = polling_env and c = poll_config and ld = alice
      and ?r0.0 = mfa_begun and s = empty_session and acct = push_account
      and mfas = three_proofs and ?s1.0 = s1 and out' = out and ?s2.0 = s3]
  note c1 = inst[THEN conjunct1, THEN mp, OF p]
  note c2 = inst'[THEN conjunct2, THEN mp, OF conjI[OF b m], THEN conjunct2]
  have k1: "\<exists>s1 s2.
        processMfaBeginAuth polling_env push_account three_proofs poll_config empty_session
          = (Ok mfa_begun, s1)
        \<and> pollLoop polling_env poll_config alice 0 mfa_begun s1 = Some (Ok mfa_approved, s2)
        \<and> (\<exists>ex. exchanges s2 = exchanges s1 @ ex
             \<and> (ex \<noteq> [] \<longrightarrow> sentTriple (fst (ex ! 0)) = Some (receivedTriple mfa_begun))
             \<and> (\<forall>k. Suc k < length ex \<longrightarrow>
                  (\<exists>res r'. snd (ex ! k) = Inr res \<and> decodeMfa polling_env (Body res) = Some r'
                     \<and> sentTriple (fst (ex ! Suc k)) = Some (receivedTriple r'))))"
    apply (rule exI[of _ s1])
    apply (rule exI[of _ s2])
    apply (intro conjI)
      apply (rule b)
     apply (rule p)
    apply (rule c1)
    done
  have k2: "\<exists>s1 out s2.
        processMfaBeginAuth polling_env push_account three_proofs poll_config empty_session
          = (Ok mfa_begun, s1)
        \<and> processMfa polling_env push_account three_proofs poll_config alice empty_session
          = Some (out, s2)
        \<and> (\<exists>ex fin. exchanges s2 = exchanges s1 @ ex @ fin
             \<and> (ex \<noteq> [] \<longrightarrow> sentTriple (fst (ex ! 0)) = Some (receivedTriple mfa_begun))
             \<and> (\<forall>k. Suc k < length ex \<longrightarrow>
                  (\<exists>res r'. snd (ex ! k) = Inr res \<and> decodeMfa polling_env (Body res) = Some r'
                     \<and> sentTriple (fst (ex ! Suc k)) = Some (receivedTriple r')))
             \<and> length fin \<le> 1 \<and> (\<forall>x \<in> set fin. sentTriple (fst x) = None))"
    apply (rule exI[of _ s1])
    apply (rule exI[of _ out])
    apply (rule exI[of _ s3])
    apply (intro conjI)
      apply (rule b)
     apply (rule m)
    apply (rule c2)
    done
  from begin_run(1) k1 k2 show ?thesis by (intro conjI)
qed

section \<open>Every handler that goes on has made a request\<close>

















section \<open>The loops return when the server stops answering\<close>














section \<open>Runs that never return, and one that does\<close>




















end
